theory Spec2Isabelle
  imports Complex_Main
begin

text \<open>
  A model of \<open>main.py\<close>, the Streamlit page that classifies the sentiment of a film
  review: the text normalization of \<open>preprocess_text\<close>, the confidence badge, the load
  of the pickled artifacts and one run of the page, with the calls made on the artifacts
  and the events put on the page recorded in a trace.
\<close>

section \<open>Python strings\<close>

text \<open>
  A Python \<open>str\<close> is a sequence of Unicode code points. A character is its code point
  (a natural number) and a string the list of its code points, so that the characters
  beyond ASCII (the whitespace \<open>U+00A0\<close>, \<open>U+3000\<close>, accented letters) are inputs
  of the model too. \<open>py\<close> turns an ASCII literal into such a string.
\<close>

type_synonym pychar = nat
type_synonym pystr = "pychar list"

definition py :: "string \<Rightarrow> pystr" where
  "py s = map of_char s"

definition is_ascii_letter :: "pychar \<Rightarrow> bool" where
  \<comment> \<open>the character class \<open>[A-Za-z]\<close>\<close>
  "is_ascii_letter c = ((65 \<le> c \<and> c \<le> 90) \<or> (97 \<le> c \<and> c \<le> 122))"

definition is_lower_letter :: "pychar \<Rightarrow> bool" where
  \<comment> \<open>the character class \<open>[a-z]\<close>\<close>
  "is_lower_letter c = (97 \<le> c \<and> c \<le> 122)"

definition isspace :: "pychar \<Rightarrow> bool" where
  \<comment> \<open>the characters \<open>str.strip()\<close> removes and \<open>\\s\<close> matches in a \<open>str\<close> pattern:
      \<open>U+0009..U+000D\<close>, \<open>U+001C..U+0020\<close>, \<open>U+0085\<close>, \<open>U+00A0\<close>, \<open>U+1680\<close>,
      \<open>U+2000..U+200A\<close>, \<open>U+2028\<close>, \<open>U+2029\<close>, \<open>U+202F\<close>, \<open>U+205F\<close>, \<open>U+3000\<close>\<close>
  "isspace c = ((9 \<le> c \<and> c \<le> 13) \<or> (28 \<le> c \<and> c \<le> 32) \<or> c = 133 \<or> c = 160 \<or>
     c = 5760 \<or> (8192 \<le> c \<and> c \<le> 8202) \<or> c = 8232 \<or> c = 8233 \<or> c = 8239 \<or>
     c = 8287 \<or> c = 12288)"

text \<open>
  \<open>re.sub('[cls]+', ' ', text)\<close>: every maximal run of characters of the class is
  replaced by one space (code point 32); the other characters are kept.
\<close>

function sub_runs :: "(pychar \<Rightarrow> bool) \<Rightarrow> pystr \<Rightarrow> pystr" where
  "sub_runs P [] = []"
| "sub_runs P (c # cs) =
     (if P c then 32 # sub_runs P (dropWhile P cs) else c # sub_runs P cs)"
  by pat_completeness auto
termination
  by (relation "measure (\<lambda>(P, cs). length cs)")
     (auto simp: le_imp_less_Suc length_dropWhile_le)

definition lower_char :: "pychar \<Rightarrow> pychar" where
  "lower_char c = (if 65 \<le> c \<and> c \<le> 90 then c + 32 else c)"

definition lower :: "pystr \<Rightarrow> pystr" where
  \<comment> \<open>\<open>str.lower()\<close> on the strings it is applied to here: the result of the first
      \<open>re.sub\<close> holds ASCII letters and spaces only (lemma \<open>sub_letters_chars\<close>), where
      \<open>lower\<close> maps \<open>A..Z\<close> to \<open>a..z\<close> and keeps the rest\<close>
  "lower s = map lower_char s"

definition strip :: "pystr \<Rightarrow> pystr" where
  \<comment> \<open>\<open>str.strip()\<close>: leading and trailing whitespace removed\<close>
  "strip s = rev (dropWhile isspace (rev (dropWhile isspace s)))"

definition normalize_text :: "pystr \<Rightarrow> pystr" where
  \<comment> \<open>lines 39 and 41 of \<open>preprocess_text\<close>\<close>
  "normalize_text text =
     (let text = strip (lower (sub_runs (\<lambda>c. \<not> is_ascii_letter c) text));
          text = sub_runs isspace text
      in text)"

section \<open>The shape of normalized text\<close>

text \<open>
  The invariant of the specification's NormalizedText, in its words: only lowercase ASCII
  letters and spaces, spaces single, none leading or trailing.
\<close>

fun single_spaced :: "pystr \<Rightarrow> bool" where
  "single_spaced (a # b # cs) = (\<not> (a = 32 \<and> b = 32) \<and> single_spaced (b # cs))"
| "single_spaced _ = True"

definition no_edge_space :: "pystr \<Rightarrow> bool" where
  "no_edge_space t = (case t of [] \<Rightarrow> True | c # cs \<Rightarrow> c \<noteq> 32 \<and> last (c # cs) \<noteq> 32)"

definition normal_form :: "pystr \<Rightarrow> bool" where
  "normal_form t =
     (list_all (\<lambda>c. is_lower_letter c \<or> c = 32) t \<and> single_spaced t \<and> no_edge_space t)"

text \<open>
  Regular expressions over character classes, their language, and a matcher by
  derivatives; \<open>norm_rexp\<close> is the specification's pattern \<open>^[a-z]*( [a-z]+)*$\<close>.
\<close>

datatype rexp =
    Zero
  | One
  | Chars "pychar \<Rightarrow> bool"
  | Alt rexp rexp
  | Then rexp rexp
  | Many rexp

inductive_set star :: "pystr set \<Rightarrow> pystr set" for A :: "pystr set" where
  star_empty: "[] \<in> star A"
| star_step: "u \<in> A \<Longrightarrow> v \<in> star A \<Longrightarrow> u @ v \<in> star A"

primrec lang :: "rexp \<Rightarrow> pystr set" where
  "lang Zero = {}"
| "lang One = {[]}"
| "lang (Chars P) = {[c] | c. P c}"
| "lang (Alt r s) = lang r \<union> lang s"
| "lang (Then r s) = {u @ v | u v. u \<in> lang r \<and> v \<in> lang s}"
| "lang (Many r) = star (lang r)"

primrec nullable :: "rexp \<Rightarrow> bool" where
  "nullable Zero = False"
| "nullable One = True"
| "nullable (Chars P) = False"
| "nullable (Alt r s) = (nullable r \<or> nullable s)"
| "nullable (Then r s) = (nullable r \<and> nullable s)"
| "nullable (Many r) = True"

primrec deriv :: "pychar \<Rightarrow> rexp \<Rightarrow> rexp" where
  "deriv c Zero = Zero"
| "deriv c One = Zero"
| "deriv c (Chars P) = (if P c then One else Zero)"
| "deriv c (Alt r s) = Alt (deriv c r) (deriv c s)"
| "deriv c (Then r s) =
     (if nullable r then Alt (Then (deriv c r) s) (deriv c s) else Then (deriv c r) s)"
| "deriv c (Many r) = Then (deriv c r) (Many r)"

primrec matches :: "rexp \<Rightarrow> pystr \<Rightarrow> bool" where
  "matches r [] = nullable r"
| "matches r (c # cs) = matches (deriv c r) cs"

definition word_rexp :: rexp where
  \<comment> \<open>\<open> [a-z]+\<close>: a space, then one letter or more\<close>
  "word_rexp = Then (Chars (\<lambda>c. c = 32))
     (Then (Chars is_lower_letter) (Many (Chars is_lower_letter)))"

definition norm_rexp :: rexp where
  "norm_rexp = Then (Many (Chars is_lower_letter)) (Many word_rexp)"

section \<open>Floats\<close>

text \<open>
  A float (\<open>float\<close>, \<open>numpy.float64\<close>) is modelled as the real number it denotes; NaN and
  the infinities are outside the model. A comparison of floats is exact. An arithmetic
  operation is the operation on the reals followed by the rounding of IEEE 754 binary64,
  to the nearest double with ties to the even mantissa (overflow, which no product of a
  probability by 100 reaches, is not modelled). The doubles of a binade \<open>[2^e, 2^(e+1))\<close>
  are the multiples of \<open>2^(e-52)\<close>; below \<open>2^(-1022)\<close> they are the multiples of
  \<open>2^(-1074)\<close>.
\<close>

definition round_half_even :: "real \<Rightarrow> int" where
  "round_half_even y =
     (let f = \<lfloor>y\<rfloor>; r = y - of_int f in
      if r < 1 / 2 then f else if r > 1 / 2 then f + 1
      else if even f then f else f + 1)"

definition double_exponent :: "real \<Rightarrow> int" where
  "double_exponent x = max \<lfloor>log 2 \<bar>x\<bar>\<rfloor> (- 1022)"

definition round_double :: "real \<Rightarrow> real" where
  "round_double x =
     (if x = 0 then 0
      else let q = 2 powr of_int (double_exponent x - 52)
           in q * of_int (round_half_even (x / q)))"

definition fmul :: "real \<Rightarrow> real \<Rightarrow> real" where
  \<comment> \<open>\<open>a * b\<close> on floats\<close>
  "fmul a b = round_double (a * b)"

definition fsub :: "real \<Rightarrow> real \<Rightarrow> real" where
  \<comment> \<open>\<open>a - b\<close> on floats\<close>
  "fsub a b = round_double (a - b)"

section \<open>Exceptions, external objects and the trace of a run\<close>

datatype exn =
    FileNotFoundError string
  | KeyError string
  | IndexError
  | ValueError
  | StreamlitAPIException
  | Exception string

datatype label = StrLabel pystr | IntLabel int

text \<open>
  The pickled artifacts are opaque objects. A classifier is its two methods, each of
  which returns or raises; \<open>predict\<close> returns one label per row and \<open>predict_proba\<close> one
  row of class probabilities per row.
\<close>

record 'v classifier =
  predict :: "'v \<Rightarrow> exn + label list"
  predict_proba :: "'v \<Rightarrow> exn + real list list"

type_synonym 'v vectorizer = "pystr list \<Rightarrow> exn + 'v"

type_synonym tool = "pystr \<Rightarrow> exn + pystr"

datatype model_id = BNB | SVM | Ensemble

datatype call =
    Transform "pystr list"
  | Predict model_id
  | PredictProba model_id
  | Remove pystr
  | Stem pystr

datatype badge = Tinggi | Sedang | Rendah

datatype style = Success | Warning | Error

datatype polarity = Positif | Negatif

text \<open>
  What a run puts on the page, in order. The static widgets (title, dividers, input
  widgets, captions) carry no information of the pipeline and are left out.
\<close>

datatype ui_event =
    LoadFailed exn
  | Unavailable
  | EmptyInputWarning
  | ResultHeader
  | Sentiment polarity
  | Confidence "badge \<times> style" real
  | Progress polarity real
  | ComparisonHeader
  | BaseSentiment model_id polarity
  | Details pystr pystr
  | PredictionFailed exn

record trace =
  shown :: "ui_event list"
  calls :: "call list"

definition start :: trace where
  "start = \<lparr>shown = [], calls = []\<rparr>"

text \<open>
  A computation of the \<open>try\<close> block: it extends the trace and returns a value or the
  exception it raised, which ends the block.
\<close>

type_synonym 'a comp = "trace \<Rightarrow> (exn + 'a) \<times> trace"

definition ret :: "'a \<Rightarrow> 'a comp" where
  "ret a s = (Inr a, s)"

definition lift :: "exn + 'a \<Rightarrow> 'a comp" where
  "lift r s = (r, s)"

definition then_do :: "'a comp \<Rightarrow> ('a \<Rightarrow> 'b comp) \<Rightarrow> 'b comp" where
  "then_do m f s = (case m s of (Inl e, s') \<Rightarrow> (Inl e, s') | (Inr a, s') \<Rightarrow> f a s')"

definition invoke :: "call \<Rightarrow> exn + 'a \<Rightarrow> 'a comp" where
  \<comment> \<open>a call of a method of an artifact, recorded whether it returns or raises\<close>
  "invoke c r s = (r, s\<lparr>calls := calls s @ [c]\<rparr>)"

definition display :: "ui_event \<Rightarrow> unit comp" where
  "display ev s = (Inr (), s\<lparr>shown := shown s @ [ev]\<rparr>)"

definition getitem :: "'a list \<Rightarrow> nat \<Rightarrow> exn + 'a" where
  "getitem xs i = (if i < length xs then Inr (xs ! i) else Inl IndexError)"

definition lookup :: "(string \<times> 'a) list \<Rightarrow> string \<Rightarrow> exn + 'a" where
  \<comment> \<open>\<open>d[k]\<close> on a dict\<close>
  "lookup d k = (case map_of d k of None \<Rightarrow> Inl (KeyError k) | Some v \<Rightarrow> Inr v)"

definition py_max :: "real list \<Rightarrow> exn + real" where
  "py_max xs = (case xs of [] \<Rightarrow> Inl ValueError | x # r \<Rightarrow> Inr (fold max r x))"

text \<open>
  \<open>st.progress(value)\<close> with a float: Streamlit's \<open>_check_float_between\<close> accepts a value
  of \<open>[0.0, 1.0]\<close> and a value that \<open>math.isclose\<close> finds close to a bound, with both
  tolerances \<open>1e-9\<close>; any other value raises \<open>StreamlitAPIException\<close>.
\<close>

definition tolerance :: real where
  \<comment> \<open>the literal \<open>1e-9\<close>\<close>
  "tolerance = round_double (1 / 10 ^ 9)"

definition isclose :: "real \<Rightarrow> real \<Rightarrow> bool" where
  \<comment> \<open>\<open>math.isclose(a, b, rel_tol=1e-9, abs_tol=1e-9)\<close>\<close>
  "isclose a b =
     (let diff = \<bar>fsub b a\<bar> in
      diff \<le> \<bar>fmul tolerance b\<bar> \<or> diff \<le> \<bar>fmul tolerance a\<bar> \<or> diff \<le> tolerance)"

definition check_float_between :: "real \<Rightarrow> bool" where
  "check_float_between v = ((0 \<le> v \<and> v \<le> 1) \<or> isclose v 0 \<or> isclose v 1)"

definition progress :: "polarity \<Rightarrow> real \<Rightarrow> unit comp" where
  "progress k v =
     (if check_float_between v then display (Progress k v)
      else lift (Inl StreamlitAPIException))"

section \<open>The functions of \<open>main.py\<close>\<close>

record 'v files =
  file_bnb :: "exn + 'v classifier"
  file_svm :: "exn + 'v classifier"
  file_ensemble :: "exn + 'v classifier"
  file_vectorizer :: "exn + 'v vectorizer"
  file_tools :: "exn + (string \<times> tool option) list"

record 'v artifacts =
  model_bnb :: "'v classifier option"
  model_svm :: "'v classifier option"
  model_ensemble :: "'v classifier option"
  vectorizer :: "'v vectorizer option"
  tools :: "(string \<times> tool option) list option"

definition nothing_loaded :: "'v artifacts" where
  "nothing_loaded = \<lparr>model_bnb = None, model_svm = None, model_ensemble = None,
     vectorizer = None, tools = None\<rparr>"

definition load_failed :: "exn \<Rightarrow> 'v artifacts \<times> ui_event list" where
  \<comment> \<open>both \<open>except\<close> branches: a message, and five times \<open>None\<close>\<close>
  "load_failed e = (nothing_loaded, [LoadFailed e])"

definition load_model_objects :: "'v files \<Rightarrow> 'v artifacts \<times> ui_event list" where
  "load_model_objects f =
     (case file_bnb f of Inl e \<Rightarrow> load_failed e | Inr bnb \<Rightarrow>
     (case file_svm f of Inl e \<Rightarrow> load_failed e | Inr svm \<Rightarrow>
     (case file_ensemble f of Inl e \<Rightarrow> load_failed e | Inr ens \<Rightarrow>
     (case file_vectorizer f of Inl e \<Rightarrow> load_failed e | Inr vz \<Rightarrow>
     (case file_tools f of Inl e \<Rightarrow> load_failed e | Inr tb \<Rightarrow>
        (\<lparr>model_bnb = Some bnb, model_svm = Some svm, model_ensemble = Some ens,
          vectorizer = Some vz, tools = Some tb\<rparr>, []))))))"

definition preprocess_text :: "pystr \<Rightarrow> tool option \<Rightarrow> tool option \<Rightarrow> pystr comp" where
  "preprocess_text text stopword_remover stemmer =
     then_do (ret (normalize_text text)) (\<lambda>text.
     then_do (case stopword_remover of None \<Rightarrow> ret text
              | Some remove \<Rightarrow> invoke (Remove text) (remove text)) (\<lambda>text.
     case stemmer of None \<Rightarrow> ret text
     | Some stem \<Rightarrow> invoke (Stem text) (stem text)))"

definition get_confidence_badge :: "real \<Rightarrow> badge \<times> style" where
  "get_confidence_badge prob =
     (if prob > 80 then (Tinggi, Success)
      else if prob > 60 then (Sedang, Warning)
      else (Rendah, Error))"

record ui =
  predict_btn :: bool
  input_text :: pystr
  show_comparison :: bool
  show_details :: bool

definition polarity_of :: "label \<Rightarrow> polarity" where
  \<comment> \<open>\<open>if pred == "positive": ... else: ...\<close>\<close>
  "polarity_of pred = (if pred = StrLabel (py ''positive'') then Positif else Negatif)"

definition show_ensemble :: "label \<Rightarrow> real list \<Rightarrow> unit comp" where
  \<comment> \<open>lines 134 to 158\<close>
  "show_ensemble pred_ensemble prob_ensemble =
     then_do (display ResultHeader) (\<lambda>_.
     then_do (lift (py_max prob_ensemble)) (\<lambda>m.
     let max_prob = fmul m 100; conf = get_confidence_badge max_prob in
     then_do (display (Sentiment (polarity_of pred_ensemble))) (\<lambda>_.
     then_do (display (Confidence conf max_prob)) (\<lambda>_.
     then_do (lift (getitem prob_ensemble 1)) (\<lambda>p1.
     then_do (progress Positif p1) (\<lambda>_.
     then_do (lift (getitem prob_ensemble 0)) (\<lambda>p0.
     progress Negatif p0)))))))"

definition compare_models :: "'v classifier \<Rightarrow> 'v classifier \<Rightarrow> 'v \<Rightarrow> unit comp" where
  \<comment> \<open>lines 162 to 182\<close>
  "compare_models bnb svm vec =
     then_do (display ComparisonHeader) (\<lambda>_.
     then_do (invoke (Predict BNB) (predict bnb vec)) (\<lambda>r.
     then_do (lift (getitem r 0)) (\<lambda>pred_bnb.
     then_do (invoke (Predict SVM) (predict svm vec)) (\<lambda>r.
     then_do (lift (getitem r 0)) (\<lambda>pred_svm.
     then_do (display (BaseSentiment BNB (polarity_of pred_bnb))) (\<lambda>_.
     display (BaseSentiment SVM (polarity_of pred_svm))))))))"

definition vectorize_input ::
  "'v vectorizer \<Rightarrow> (string \<times> tool option) list \<Rightarrow> ui \<Rightarrow> (pystr \<times> 'v) comp" where
  \<comment> \<open>lines 121 to 127: preprocessing and vectorization\<close>
  "vectorize_input vz tb u =
     then_do (lift (lookup tb ''stopword'')) (\<lambda>stopword_remover.
     then_do (lift (lookup tb ''stemmer'')) (\<lambda>stemmer.
     then_do (preprocess_text (input_text u) stopword_remover stemmer) (\<lambda>processed_text.
     then_do (invoke (Transform [processed_text]) (vz [processed_text])) (\<lambda>vec.
     ret (processed_text, vec)))))"

definition predict_and_show ::
  "'v classifier \<Rightarrow> 'v classifier \<Rightarrow> 'v classifier \<Rightarrow> ui \<Rightarrow> pystr \<Rightarrow> 'v \<Rightarrow> unit comp" where
  \<comment> \<open>lines 129 to 189: prediction and display\<close>
  "predict_and_show bnb svm ens u processed_text vec =
     then_do (invoke (Predict Ensemble) (predict ens vec)) (\<lambda>r.
     then_do (lift (getitem r 0)) (\<lambda>pred_ensemble.
     then_do (invoke (PredictProba Ensemble) (predict_proba ens vec)) (\<lambda>r.
     then_do (lift (getitem r 0)) (\<lambda>prob_ensemble.
     then_do (show_ensemble pred_ensemble prob_ensemble) (\<lambda>_.
     then_do (if show_comparison u then compare_models bnb svm vec else ret ()) (\<lambda>_.
     if show_details u then display (Details (input_text u) processed_text)
     else ret ()))))))"

definition try_block ::
  "'v classifier \<Rightarrow> 'v classifier \<Rightarrow> 'v classifier \<Rightarrow> 'v vectorizer \<Rightarrow>
   (string \<times> tool option) list \<Rightarrow> ui \<Rightarrow> unit comp" where
  \<comment> \<open>the body of the \<open>try\<close>, lines 121 to 189\<close>
  "try_block bnb svm ens vz tb u =
     then_do (vectorize_input vz tb u) (\<lambda>(processed_text, vec).
     predict_and_show bnb svm ens u processed_text vec)"

definition models_loaded :: "'v artifacts \<Rightarrow> bool" where
  \<comment> \<open>\<open>all([...])\<close>: \<open>None\<close> and the empty dict are false, a loaded estimator or
      vectorizer is true\<close>
  "models_loaded a = (model_bnb a \<noteq> None \<and> model_svm a \<noteq> None \<and> model_ensemble a \<noteq> None \<and>
     vectorizer a \<noteq> None \<and> (case tools a of None \<Rightarrow> False | Some d \<Rightarrow> d \<noteq> []))"

definition unavailable :: trace where
  "unavailable = \<lparr>shown = [Unavailable], calls = []\<rparr>"

definition script :: "'v artifacts \<Rightarrow> ui \<Rightarrow> trace" where
  \<comment> \<open>lines 72 to 192: one run of the page on the loaded artifacts\<close>
  "script a u =
     (if \<not> models_loaded a then unavailable
      else case (model_bnb a, model_svm a, model_ensemble a, vectorizer a, tools a) of
        (Some bnb, Some svm, Some ens, Some vz, Some tb) \<Rightarrow>
          if predict_btn u then
            if strip (input_text u) = [] then \<lparr>shown = [EmptyInputWarning], calls = []\<rparr>
            else (case try_block bnb svm ens vz tb u start of
                    (Inl e, s) \<Rightarrow> s\<lparr>shown := shown s @ [PredictionFailed e]\<rparr>
                  | (Inr _, s) \<Rightarrow> s)
          else start
      | _ \<Rightarrow> unavailable)"

definition app :: "'v files \<Rightarrow> ui \<Rightarrow> trace" where
  \<comment> \<open>the whole module: the (cached) load, then the page\<close>
  "app f u =
     (case load_model_objects f of (a, msgs) \<Rightarrow>
        (let t = script a u in t\<lparr>shown := msgs @ shown t\<rparr>))"

section \<open>Notions used in the statements\<close>

text \<open>
  What lines 134 to 158 put on the page for an ensemble label \<open>l\<close> and a row
  \<open>pn # pp # rest\<close>, and what the details box adds.
\<close>

definition shown_for_ensemble :: "label \<Rightarrow> real \<Rightarrow> real \<Rightarrow> real list \<Rightarrow> ui_event list" where
  "shown_for_ensemble l pn pp rest =
     (let max_prob = fmul (fold max (pp # rest) pn) 100 in
      [ResultHeader, Sentiment (polarity_of l),
       Confidence (get_confidence_badge max_prob) max_prob,
       Progress Positif pp, Progress Negatif pn])"

text \<open>
  A load fails when \<open>joblib.load\<close> raises on one of the five files.
\<close>

definition load_fails :: "'v files \<Rightarrow> bool" where
  "load_fails f = (isl (file_bnb f) \<or> isl (file_svm f) \<or> isl (file_ensemble f) \<or>
     isl (file_vectorizer f) \<or> isl (file_tools f))"

definition shown_details :: "ui \<Rightarrow> pystr \<Rightarrow> ui_event list" where
  "shown_details u p = (if show_details u then [Details (input_text u) p] else [])"

text \<open>
  Invariants of the trace along a computation: \<open>preserves I m\<close> says that \<open>m\<close> keeps
  \<open>I\<close>, and \<open>stable I Q\<close> that \<open>I\<close> survives every display and every call in \<open>Q\<close>.
\<close>

definition preserves :: "(trace \<Rightarrow> bool) \<Rightarrow> 'a comp \<Rightarrow> bool" where
  "preserves I m = (\<forall>s. I s \<longrightarrow> I (snd (m s)))"

definition stable :: "(trace \<Rightarrow> bool) \<Rightarrow> (call \<Rightarrow> bool) \<Rightarrow> bool" where
  "stable I Q = ((\<forall>s ev. I s \<longrightarrow> I (s\<lparr>shown := shown s @ [ev]\<rparr>)) \<and>
     (\<forall>s c. Q c \<longrightarrow> I s \<longrightarrow> I (s\<lparr>calls := calls s @ [c]\<rparr>)))"

section \<open>Example artifacts and inputs\<close>

definition ex_positive :: "nat classifier" where
  "ex_positive = \<lparr>predict = (\<lambda>v. Inr [StrLabel (py ''positive'')]),
     predict_proba = (\<lambda>v. Inr [[1 / 8, 7 / 8]])\<rparr>"

definition ex_negative :: "nat classifier" where
  "ex_negative = \<lparr>predict = (\<lambda>v. Inr [StrLabel (py ''negative'')]),
     predict_proba = (\<lambda>v. Inr [[3 / 4, 1 / 4]])\<rparr>"

definition ex_numeric :: "nat classifier" where
  "ex_numeric = \<lparr>predict = (\<lambda>v. Inr [IntLabel 1]),
     predict_proba = (\<lambda>v. Inr [[1 / 4, 3 / 4]])\<rparr>"

definition ex_label_only :: "nat classifier" where
  "ex_label_only = \<lparr>predict = (\<lambda>v. Inr [StrLabel (py ''positive'')]),
     predict_proba = (\<lambda>v. Inl (Exception ''predict_proba is not available''))\<rparr>"

definition ex_raising :: "nat classifier" where
  "ex_raising = \<lparr>predict = (\<lambda>v. Inl (Exception ''boom'')),
     predict_proba = (\<lambda>v. Inl (Exception ''boom''))\<rparr>"

definition ex_vectorizer :: "nat vectorizer" where
  "ex_vectorizer docs = Inr (length (concat docs))"

definition ex_remove :: tool where
  "ex_remove t = Inr (takeWhile (\<lambda>c. c \<noteq> 32) t)"

definition ex_stem :: tool where
  "ex_stem t = Inr (take 3 t)"

definition ex_tools :: "(string \<times> tool option) list" where
  "ex_tools = [(''stopword'', Some ex_remove), (''stemmer'', Some ex_stem)]"

definition ex_artifacts :: "nat classifier \<Rightarrow> nat classifier \<Rightarrow> nat classifier \<Rightarrow> nat artifacts" where
  "ex_artifacts bnb svm ens = \<lparr>model_bnb = Some bnb, model_svm = Some svm,
     model_ensemble = Some ens, vectorizer = Some ex_vectorizer, tools = Some ex_tools\<rparr>"

definition ex_ui :: ui where
  "ex_ui = \<lparr>predict_btn = True, input_text = py ''Bagus, film!'', show_comparison = True,
     show_details = False\<rparr>"

definition ex_calls :: "call list" where
  "ex_calls = [Remove (py ''bagus film''), Stem (py ''bagus''), Transform [py ''bag'']]"

definition ex_boundary :: "nat classifier" where
  \<comment> \<open>an ensemble answering the doubles nearest to 0.2 and 0.8\<close>
  "ex_boundary = \<lparr>predict = (\<lambda>v. Inr [StrLabel (py ''positive'')]),
     predict_proba = (\<lambda>v. Inr [[3602879701896397 / 2 ^ 54, 3602879701896397 / 2 ^ 52]])\<rparr>"

definition ex_files :: "nat files" where
  "ex_files = \<lparr>file_bnb = Inr ex_positive, file_svm = Inr ex_negative,
     file_ensemble = Inr ex_positive,
     file_vectorizer = Inl (FileNotFoundError ''vectorizer_tfidf.pkl''),
     file_tools = Inr ex_tools\<rparr>"

section \<open>Properties of normalization\<close>

lemma sub_runs_chars: "c \<in> set (sub_runs P s) \<Longrightarrow> c = 32 \<or> (\<not> P c \<and> c \<in> set s)"
proof (induction P s rule: sub_runs.induct)
  case (1 P)
  then show ?case by simp
next
  case (2 P d ds)
  then show ?case
    by (auto split: if_splits dest: set_dropWhileD)
qed

lemma sub_runs_single_spaced: "P 32 \<Longrightarrow> single_spaced (sub_runs P s)"
proof (induction P s rule: sub_runs.induct)
  case (1 P)
  then show ?case by simp
next
  case (2 P d ds)
  show ?case
  proof (cases "P d")
    case True
    have ss: "single_spaced (sub_runs P (dropWhile P ds))" using 2 True by simp
    have eq: "sub_runs P (d # ds) = 32 # sub_runs P (dropWhile P ds)"
      using True by simp
    show ?thesis
    proof (cases "dropWhile P ds")
      case Nil
      show ?thesis unfolding eq Nil by simp
    next
      case (Cons e es)
      then have ne: "\<not> P e" using hd_dropWhile[of P ds] by auto
      then have "e \<noteq> 32" using 2(3) by auto
      moreover have "single_spaced (sub_runs P (e # es))" using ss Cons by simp
      ultimately show ?thesis unfolding eq Cons using ne by simp
    qed
  next
    case False
    then have "d \<noteq> 32" using 2(3) by auto
    moreover have "single_spaced (sub_runs P ds)" using 2 False by simp
    ultimately show ?thesis using False by (cases "sub_runs P ds") auto
  qed
qed

lemma sub_runs_id:
  "list_all (\<lambda>c. P c \<longrightarrow> c = 32) t \<Longrightarrow> single_spaced t \<Longrightarrow> sub_runs P t = t"
proof (induction P t rule: sub_runs.induct)
  case (1 P)
  then show ?case by simp
next
  case (2 P d ds)
  show ?case
  proof (cases "P d")
    case True
    then have d: "d = 32" using 2(3) by simp
    have "dropWhile P ds = ds"
    proof (cases ds)
      case Nil
      then show ?thesis by simp
    next
      case (Cons e es)
      then have "e \<noteq> 32" using 2(4) d by simp
      then have "\<not> P e" using 2(3) Cons by auto
      then show ?thesis using Cons by simp
    qed
    moreover have "single_spaced ds" using 2(4) by (cases ds) auto
    ultimately show ?thesis using 2 True d by simp
  next
    case False
    moreover have "single_spaced ds" using 2(4) by (cases ds) auto
    ultimately show ?thesis using 2 by simp
  qed
qed

lemma sub_letters_chars:
  "c \<in> set (sub_runs (\<lambda>c. \<not> is_ascii_letter c) s) \<Longrightarrow> is_ascii_letter c \<or> c = 32"
  using sub_runs_chars[of c "\<lambda>c. \<not> is_ascii_letter c" s] by auto

lemma lower_char_letter: "is_ascii_letter c \<Longrightarrow> is_lower_letter (lower_char c)"
  by (auto simp: is_ascii_letter_def is_lower_letter_def lower_char_def)

lemma lower_char_space [simp]: "lower_char 32 = 32"
  by (simp add: lower_char_def)

lemma lower_char_eq_space: "is_ascii_letter c \<or> c = 32 \<Longrightarrow> lower_char c = 32 \<longleftrightarrow> c = 32"
  by (auto simp: is_ascii_letter_def lower_char_def)

lemma lower_char_id: "is_lower_letter c \<or> c = 32 \<Longrightarrow> lower_char c = c"
  by (auto simp: is_lower_letter_def lower_char_def)

lemma single_spaced_map:
  "\<forall>c \<in> set s. f c = 32 \<longrightarrow> c = 32 \<Longrightarrow> single_spaced s \<Longrightarrow> single_spaced (map f s)"
  by (induction s rule: single_spaced.induct) auto

lemma single_spaced_prefix: "single_spaced (xs @ ys) \<Longrightarrow> single_spaced xs"
  by (induction xs rule: single_spaced.induct) auto

lemma single_spaced_suffix: "single_spaced (xs @ ys) \<Longrightarrow> single_spaced ys"
proof (induction xs)
  case Nil
  then show ?case by simp
next
  case (Cons x xs)
  then show ?case by (cases "xs @ ys") auto
qed

lemma rev_dropWhile_split:
  "xs = rev (dropWhile P (rev xs)) @ rev (takeWhile P (rev xs))"
proof -
  have "rev (takeWhile P (rev xs) @ dropWhile P (rev xs)) = xs"
    by (simp only: takeWhile_dropWhile_id rev_rev_ident)
  then show ?thesis by (simp only: rev_append)
qed

lemma strip_suffix:
  "dropWhile isspace s = strip s @ rev (takeWhile isspace (rev (dropWhile isspace s)))"
  unfolding strip_def by (rule rev_dropWhile_split)

lemma strip_split: "\<exists>pre post. s = pre @ strip s @ post"
proof -
  have "s = takeWhile isspace s @ dropWhile isspace s" by simp
  then have "s = takeWhile isspace s @ strip s @
      rev (takeWhile isspace (rev (dropWhile isspace s)))"
    using strip_suffix[of s] by simp
  then show ?thesis by blast
qed

lemma strip_hd: "strip s \<noteq> [] \<Longrightarrow> \<not> isspace (hd (strip s))"
proof -
  assume ne: "strip s \<noteq> []"
  let ?m = "dropWhile isspace s"
  have "strip s = []" if e: "?m = []" unfolding strip_def e by simp
  with ne have "?m \<noteq> []" by blast
  then have "\<not> isspace (hd ?m)" by (rule hd_dropWhile)
  moreover have "hd ?m = hd (strip s)" using strip_suffix[of s] ne by (metis hd_append2)
  ultimately show ?thesis by simp
qed

lemma strip_last: "strip s \<noteq> [] \<Longrightarrow> \<not> isspace (last (strip s))"
proof -
  assume ne: "strip s \<noteq> []"
  let ?r = "dropWhile isspace (rev (dropWhile isspace s))"
  have r: "?r \<noteq> []" using ne by (simp add: strip_def)
  then have "\<not> isspace (hd ?r)" by (rule hd_dropWhile)
  moreover have "last (strip s) = hd ?r" using r unfolding strip_def by (simp only: last_rev)
  ultimately show ?thesis by simp
qed

lemma isspace_32: "isspace 32"
  by (simp add: isspace_def)

lemma lower_not_space: "is_lower_letter c \<Longrightarrow> \<not> isspace c"
  by (auto simp: is_lower_letter_def isspace_def)

lemma strip_id: "s = [] \<or> (\<not> isspace (hd s) \<and> \<not> isspace (last s)) \<Longrightarrow> strip s = s"
proof (cases s)
  case Nil
  then show ?thesis by (simp add: strip_def)
next
  case (Cons c cs)
  assume "s = [] \<or> (\<not> isspace (hd s) \<and> \<not> isspace (last s))"
  then have h: "\<not> isspace (hd s)" and l: "\<not> isspace (last s)" using Cons by auto
  have 1: "dropWhile isspace s = s" using h Cons by simp
  have "rev s \<noteq> []" using Cons by simp
  moreover have "\<not> isspace (hd (rev s))" using l by (simp add: hd_rev)
  ultimately have 2: "dropWhile isspace (rev s) = rev s" by (cases "rev s") auto
  show ?thesis unfolding strip_def 1 2 by simp
qed

lemma no_edge_space_iff:
  "no_edge_space t \<longleftrightarrow> t = [] \<or> (hd t \<noteq> 32 \<and> last t \<noteq> 32)"
  by (cases t) (auto simp: no_edge_space_def)

lemma lower_letter_is_letter: "is_lower_letter c \<Longrightarrow> is_ascii_letter c"
  by (simp add: is_lower_letter_def is_ascii_letter_def)

lemma normalize_eq_strip:
  "normalize_text s = strip (lower (sub_runs (\<lambda>c. \<not> is_ascii_letter c) s)) \<and>
   normal_form (normalize_text s)"
proof -
  let ?a = "sub_runs (\<lambda>c. \<not> is_ascii_letter c) s"
  let ?b = "lower ?a"
  let ?c = "strip ?b"
  have a_chars: "\<forall>c \<in> set ?a. is_ascii_letter c \<or> c = 32"
    using sub_letters_chars by blast
  have a_ss: "single_spaced ?a"
    by (rule sub_runs_single_spaced) (simp add: is_ascii_letter_def)
  have b_chars: "\<forall>c \<in> set ?b. is_lower_letter c \<or> c = 32"
    using a_chars lower_char_letter by (auto simp: lower_def)
  have b_ss: "single_spaced ?b"
    unfolding lower_def using a_chars a_ss lower_char_eq_space
    by (intro single_spaced_map) auto
  obtain pre post where split: "?b = pre @ ?c @ post"
    using strip_split by blast
  have c_chars: "\<forall>c \<in> set ?c. is_lower_letter c \<or> c = 32"
  proof
    fix x assume "x \<in> set ?c"
    then have "x \<in> set (pre @ ?c @ post)" by simp
    then have "x \<in> set ?b" by (simp only: split[symmetric])
    then show "is_lower_letter x \<or> x = 32" using b_chars by blast
  qed
  have "single_spaced (pre @ ?c @ post)" using b_ss by (simp only: split[symmetric])
  then have "single_spaced (?c @ post)" by (rule single_spaced_suffix)
  then have c_ss: "single_spaced ?c" by (rule single_spaced_prefix)
  have c_edge: "no_edge_space ?c"
    unfolding no_edge_space_iff using strip_hd[of ?b] strip_last[of ?b] isspace_32 by metis
  have "list_all (\<lambda>x. isspace x \<longrightarrow> x = 32) ?c"
    unfolding list_all_iff using c_chars lower_not_space by blast
  then have d: "sub_runs isspace ?c = ?c" using c_ss by (rule sub_runs_id)
  have n: "normalize_text s = ?c" by (simp add: normalize_text_def Let_def d)
  have "normal_form ?c"
    unfolding normal_form_def list_all_iff using c_chars c_ss c_edge by blast
  then show ?thesis using n by simp
qed

lemma normalize_fixpoint:
  assumes "normal_form t"
  shows "normalize_text t = t"
proof -
  have chars: "\<forall>c \<in> set t. is_lower_letter c \<or> c = 32"
    and ss: "single_spaced t" and edge: "no_edge_space t"
    using assms by (auto simp: normal_form_def list_all_iff)
  have "list_all (\<lambda>c. \<not> is_ascii_letter c \<longrightarrow> c = 32) t"
    unfolding list_all_iff using chars lower_letter_is_letter by blast
  then have a: "sub_runs (\<lambda>c. \<not> is_ascii_letter c) t = t" using ss by (rule sub_runs_id)
  have b: "lower t = t"
    unfolding lower_def using chars lower_char_id by (intro map_idI) blast
  have "t = [] \<or> (\<not> isspace (hd t) \<and> \<not> isspace (last t))"
  proof (cases t)
    case Nil
    then show ?thesis by simp
  next
    case (Cons x xs)
    then have "hd t \<in> set t" and "last t \<in> set t" by simp_all
    moreover have "hd t \<noteq> 32" and "last t \<noteq> 32"
      using edge Cons by (simp_all add: no_edge_space_iff)
    ultimately have "is_lower_letter (hd t)" and "is_lower_letter (last t)"
      using chars by blast+
    then show ?thesis using lower_not_space by blast
  qed
  then have c: "strip t = t" by (rule strip_id)
  have "list_all (\<lambda>x. isspace x \<longrightarrow> x = 32) t"
    unfolding list_all_iff using chars lower_not_space by blast
  then have d: "sub_runs isspace t = t" using ss by (rule sub_runs_id)
  show ?thesis by (simp add: normalize_text_def Let_def a b c d)
qed

section \<open>The matcher decides the language of a pattern\<close>

lemma nullable_lang: "nullable r \<longleftrightarrow> [] \<in> lang r"
  by (induction r) (auto intro: star_empty)

lemma star_cons_split:
  assumes "x \<in> star A" and "x = c # w"
  shows "\<exists>u v. w = u @ v \<and> c # u \<in> A \<and> v \<in> star A"
  using assms
proof (induction rule: star.induct)
  case star_empty
  then show ?case by simp
next
  case (star_step u v)
  show ?case
  proof (cases u)
    case Nil
    then show ?thesis using star_step by simp
  next
    case (Cons d u')
    then have "d = c" and "w = u' @ v" using star_step.prems by simp_all
    then show ?thesis using star_step.hyps Cons by blast
  qed
qed

lemma star_cons_iff:
  "c # w \<in> star A \<longleftrightarrow> (\<exists>u v. w = u @ v \<and> c # u \<in> A \<and> v \<in> star A)"
proof
  assume "c # w \<in> star A"
  then show "\<exists>u v. w = u @ v \<and> c # u \<in> A \<and> v \<in> star A"
    by (rule star_cons_split) simp
next
  assume "\<exists>u v. w = u @ v \<and> c # u \<in> A \<and> v \<in> star A"
  then obtain u v where "w = u @ v" "c # u \<in> A" "v \<in> star A" by blast
  then show "c # w \<in> star A" using star_step[of "c # u" A v] by simp
qed

lemma lang_ThenI: "u \<in> lang r \<Longrightarrow> v \<in> lang s \<Longrightarrow> u @ v \<in> lang (Then r s)"
  by simp blast

lemma deriv_lang: "w \<in> lang (deriv c r) \<longleftrightarrow> c # w \<in> lang r"
proof (induction r arbitrary: w)
  case (Then r s)
  show ?case
  proof
    assume "w \<in> lang (deriv c (Then r s))"
    then consider u v where "w = u @ v" "u \<in> lang (deriv c r)" "v \<in> lang s"
      | "nullable r" "w \<in> lang (deriv c s)"
      by (auto split: if_splits)
    then show "c # w \<in> lang (Then r s)"
    proof cases
      case 1
      then have "c # u \<in> lang r" using Then.IH(1) by simp
      then have "(c # u) @ v \<in> lang (Then r s)" using 1(3) by (rule lang_ThenI)
      then show ?thesis using 1(1) by simp
    next
      case 2
      then have "[] \<in> lang r" and "c # w \<in> lang s"
        using nullable_lang Then.IH(2) by simp_all
      then have "[] @ (c # w) \<in> lang (Then r s)" by (rule lang_ThenI)
      then show ?thesis by simp
    qed
  next
    assume "c # w \<in> lang (Then r s)"
    then obtain u v where uv: "c # w = u @ v" "u \<in> lang r" "v \<in> lang s" by auto
    show "w \<in> lang (deriv c (Then r s))"
    proof (cases u)
      case Nil
      then have "nullable r" and "w \<in> lang (deriv c s)"
        using uv nullable_lang Then.IH(2) by simp_all
      then show ?thesis by simp
    next
      case (Cons d u')
      then have "w = u' @ v" and "u' \<in> lang (deriv c r)"
        using uv Then.IH(1) by simp_all
      then show ?thesis using uv(3) by auto
    qed
  qed
next
  case (Many r)
  have "w \<in> lang (deriv c (Many r)) \<longleftrightarrow>
      (\<exists>u v. w = u @ v \<and> c # u \<in> lang r \<and> v \<in> star (lang r))"
    using Many.IH by auto
  then show ?case by (simp add: star_cons_iff)
qed auto

lemma matches_lang: "matches r w \<longleftrightarrow> w \<in> lang r"
  by (induction w arbitrary: r) (simp_all add: nullable_lang deriv_lang)

section \<open>Normalized text matches the pattern\<close>

lemma list_all_takeWhile: "list_all P (takeWhile P xs)"
  by (induction xs) simp_all

lemma letters_star: "list_all is_lower_letter w \<Longrightarrow> w \<in> lang (Many (Chars is_lower_letter))"
proof (induction w)
  case Nil
  then show ?case by (simp add: star_empty)
next
  case (Cons c w)
  then have "[c] \<in> lang (Chars is_lower_letter)" and "w \<in> star (lang (Chars is_lower_letter))"
    by simp_all
  then have "[c] @ w \<in> star (lang (Chars is_lower_letter))" by (rule star_step)
  then show ?case by simp
qed

lemma words_star:
  "list_all (\<lambda>c. is_lower_letter c \<or> c = 32) t \<Longrightarrow> single_spaced t \<Longrightarrow>
   t = [] \<or> last t \<noteq> 32 \<Longrightarrow> dropWhile is_lower_letter t \<in> lang (Many word_rexp)"
proof (induction t)
  case Nil
  then show ?case by (simp add: star_empty)
next
  case (Cons c cs)
  have cs_ok: "list_all (\<lambda>c. is_lower_letter c \<or> c = 32) cs" using Cons.prems(1) by simp
  have cs_ss: "single_spaced cs" using Cons.prems(2) by (cases cs) auto
  have cs_last: "cs = [] \<or> last cs \<noteq> 32" using Cons.prems(3) by auto
  have ih: "dropWhile is_lower_letter cs \<in> lang (Many word_rexp)"
    using Cons.IH cs_ok cs_ss cs_last by blast
  show ?case
  proof (cases "is_lower_letter c")
    case True
    then show ?thesis using ih by simp
  next
    case False
    then have c: "c = 32" using Cons.prems(1) by simp
    then obtain d ds where cs: "cs = d # ds" using Cons.prems(3) by (cases cs) auto
    then have "d \<noteq> 32" using Cons.prems(2) c by simp
    then have d: "is_lower_letter d" using cs_ok cs by simp
    have "list_all is_lower_letter (takeWhile is_lower_letter ds)"
      by (rule list_all_takeWhile)
    then have tw: "takeWhile is_lower_letter ds \<in> lang (Many (Chars is_lower_letter))"
      by (rule letters_star)
    have "[d] \<in> lang (Chars is_lower_letter)" using d by simp
    then have w: "[d] @ takeWhile is_lower_letter ds
        \<in> lang (Then (Chars is_lower_letter) (Many (Chars is_lower_letter)))"
      using tw by (rule lang_ThenI)
    have "[32] \<in> lang (Chars (\<lambda>c. c = 32))" by simp
    then have "[32] @ [d] @ takeWhile is_lower_letter ds \<in> lang word_rexp"
      unfolding word_rexp_def using w by (rule lang_ThenI)
    moreover have "dropWhile is_lower_letter ds \<in> star (lang word_rexp)"
      using ih d cs by simp
    ultimately have "([32] @ [d] @ takeWhile is_lower_letter ds) @ dropWhile is_lower_letter ds
        \<in> star (lang word_rexp)"
      by (rule star_step)
    then have "32 # d # ds \<in> star (lang word_rexp)" by simp
    then show ?thesis using False c cs by simp
  qed
qed

lemma normal_form_lang: "normal_form t \<Longrightarrow> t \<in> lang norm_rexp"
proof -
  assume nf: "normal_form t"
  then have "t = [] \<or> last t \<noteq> 32" by (auto simp: normal_form_def no_edge_space_iff)
  then have dw: "dropWhile is_lower_letter t \<in> lang (Many word_rexp)"
    using nf by (intro words_star) (simp_all add: normal_form_def)
  have "takeWhile is_lower_letter t \<in> lang (Many (Chars is_lower_letter))"
    by (rule letters_star) (rule list_all_takeWhile)
  then have "takeWhile is_lower_letter t @ dropWhile is_lower_letter t
      \<in> lang (Then (Many (Chars is_lower_letter)) (Many word_rexp))"
    using dw by (rule lang_ThenI)
  then show ?thesis by (simp add: norm_rexp_def)
qed

section \<open>Rounding to a double\<close>

lemma round_double_binade:
  assumes "2 powr of_int e \<le> \<bar>x\<bar>" "\<bar>x\<bar> < 2 powr of_int (e + 1)" "- 1022 \<le> e"
  shows "round_double x =
    2 powr of_int (e - 52) * of_int (round_half_even (x / 2 powr of_int (e - 52)))"
proof -
  have pos: "0 < \<bar>x\<bar>" using assms(1) by (smt (verit) powr_gt_zero)
  then have "\<lfloor>log 2 \<bar>x\<bar>\<rfloor> = e"
    using assms(1,2) by (simp add: floor_log_eq_powr_iff)
  then have "double_exponent x = e" using assms(3) by (simp add: double_exponent_def)
  then show ?thesis using pos by (simp add: round_double_def Let_def)
qed

lemma round_half_even_int: "round_half_even (of_int n) = n"
  by (simp add: round_half_even_def)

lemma fmul_87: "fmul (7 / 8) 100 = 175 / 2"
proof -
  have "round_double (175 / 2) =
      2 powr of_int (6 - 52) * of_int (round_half_even ((175 / 2) / 2 powr of_int (6 - 52)))"
    by (rule round_double_binade) simp_all
  moreover have "(175 / 2) / 2 powr of_int (6 - 52) = (of_int (175 * 2 ^ 45) :: real)"
    by (simp add: powr_neg_numeral)
  ultimately have "round_double (175 / 2) = 2 powr of_int (6 - 52) * of_int (175 * 2 ^ 45)"
    by (simp only: round_half_even_int)
  then show ?thesis by (simp add: fmul_def powr_neg_numeral)
qed


text \<open>The double nearest to \<open>0.8\<close> is \<open>3602879701896397 / 2^52\<close>, just above \<open>0.8\<close>;
  its float product by 100 is \<open>80.0\<close>, while the exact product is above 80.\<close>

lemma fmul_double_08:
  "fmul (3602879701896397 / 2 ^ 52) 100 = 80 \<and> (3602879701896397 / 2 ^ 52) * 100 > (80::real)"
proof -
  let ?x = "3602879701896397 / 2 ^ 52 * 100 :: real"
  let ?q = "2 powr of_int (6 - 52) :: real"
  have a: "round_double ?x = ?q * of_int (round_half_even (?x / ?q))"
    by (rule round_double_binade) simp_all
  have b: "?x / ?q = 5629499534213120 + 5 / 16"
    by (simp add: powr_neg_numeral)
  have c: "round_half_even (5629499534213120 + 5 / 16) = 5629499534213120"
    by (simp add: round_half_even_def Let_def)
  have "round_double ?x = ?q * of_int 5629499534213120"
    by (simp only: a b c)
  then have "round_double ?x = 80" by (simp add: powr_neg_numeral)
  then show ?thesis by (simp add: fmul_def)
qed

section \<open>The stages of a run\<close>

lemma strip_empty_iff: "strip s = [] \<longleftrightarrow> list_all isspace s"
proof
  assume e: "strip s = []"
  have "dropWhile isspace s = strip s @ rev (takeWhile isspace (rev (dropWhile isspace s)))"
    by (rule strip_suffix)
  then have d: "dropWhile isspace s = rev (takeWhile isspace (rev (dropWhile isspace s)))"
    using e by simp
  have "dropWhile isspace s = []"
  proof (rule ccontr)
    assume ne: "dropWhile isspace s \<noteq> []"
    then have "\<not> isspace (hd (dropWhile isspace s))" by (rule hd_dropWhile)
    moreover have "hd (dropWhile isspace s) \<in> set (dropWhile isspace s)" using ne by simp
    then have "hd (dropWhile isspace s) \<in> set (takeWhile isspace (rev (dropWhile isspace s)))"
      using d by (metis set_rev)
    then have "isspace (hd (dropWhile isspace s))" by (rule set_takeWhileD[THEN conjunct2])
    ultimately show False by simp
  qed
  then show "list_all isspace s" by (simp add: list_all_iff)
next
  assume "list_all isspace s"
  then have e: "dropWhile isspace s = []" by (simp add: list_all_iff)
  show "strip s = []" unfolding strip_def e by simp
qed

lemmas comp_defs = ret_def lift_def then_do_def invoke_def display_def

lemma then_do_Inr: "m s = (Inr a, s') \<Longrightarrow> then_do m f s = f a s'"
  by (simp add: then_do_def)

lemma then_do_Inl: "m s = (Inl e, s') \<Longrightarrow> then_do m f s = (Inl e, s')"
  by (simp add: then_do_def)

lemma preprocess_text_shown: "shown (snd (preprocess_text text sw sm s)) = shown s"
  by (cases sw; cases sm)
     (auto simp: preprocess_text_def comp_defs split: sum.splits prod.splits)

lemma vectorize_input_shown: "shown (snd (vectorize_input vz tb u s)) = shown s"
  unfolding vectorize_input_def
  by (auto simp: comp_defs lookup_def preprocess_text_def
           split: sum.splits prod.splits option.splits)

lemma show_ensemble_ok:
  assumes "0 \<le> pn" "pn \<le> 1" "0 \<le> pp" "pp \<le> 1"
  shows "show_ensemble l (pn # pp # rest) s =
    (Inr (), s\<lparr>shown := shown s @ shown_for_ensemble l pn pp rest\<rparr>)"
  using assms
  by (simp add: show_ensemble_def shown_for_ensemble_def comp_defs py_max_def getitem_def
      progress_def check_float_between_def Let_def)

lemma compare_models_ok:
  assumes "predict bnb vec = Inr (lb # lbs)" "predict svm vec = Inr (lv # lvs)"
  shows "compare_models bnb svm vec s =
    (Inr (), s\<lparr>shown := shown s @ [ComparisonHeader, BaseSentiment BNB (polarity_of lb),
         BaseSentiment SVM (polarity_of lv)],
       calls := calls s @ [Predict BNB, Predict SVM]\<rparr>)"
  using assms by (simp add: compare_models_def comp_defs getitem_def)

lemma compare_models_bnb_raises:
  assumes "predict bnb vec = Inl e"
  shows "compare_models bnb svm vec s =
    (Inl e, s\<lparr>shown := shown s @ [ComparisonHeader], calls := calls s @ [Predict BNB]\<rparr>)"
  using assms by (simp add: compare_models_def comp_defs getitem_def)

lemma compare_models_svm_raises:
  assumes "predict bnb vec = Inr (lb # lbs)" "predict svm vec = Inl e"
  shows "compare_models bnb svm vec s =
    (Inl e, s\<lparr>shown := shown s @ [ComparisonHeader],
       calls := calls s @ [Predict BNB, Predict SVM]\<rparr>)"
  using assms by (simp add: compare_models_def comp_defs getitem_def)

lemma predict_and_show_ok:
  assumes "predict ens vec = Inr (l # ls)"
    and "predict_proba ens vec = Inr ((pn # pp # rest) # rows)"
    and "0 \<le> pn" "pn \<le> 1" "0 \<le> pp" "pp \<le> 1"
    and "show_comparison u"
    and "predict bnb vec = Inr (lb # lbs)" "predict svm vec = Inr (lv # lvs)"
  shows "predict_and_show bnb svm ens u p vec s =
    (Inr (), s\<lparr>shown := shown s @ shown_for_ensemble l pn pp rest @
         [ComparisonHeader, BaseSentiment BNB (polarity_of lb),
          BaseSentiment SVM (polarity_of lv)] @ shown_details u p,
       calls := calls s @ [Predict Ensemble, PredictProba Ensemble, Predict BNB, Predict SVM]\<rparr>)"
  using assms
  by (simp add: predict_and_show_def invoke_def lift_def getitem_def then_do_def
      show_ensemble_ok compare_models_ok shown_details_def display_def ret_def)

lemma predict_and_show_no_comparison:
  assumes "predict ens vec = Inr (l # ls)"
    and "predict_proba ens vec = Inr ((pn # pp # rest) # rows)"
    and "0 \<le> pn" "pn \<le> 1" "0 \<le> pp" "pp \<le> 1"
    and "\<not> show_comparison u"
  shows "predict_and_show bnb svm ens u p vec s =
    (Inr (), s\<lparr>shown := shown s @ shown_for_ensemble l pn pp rest @ shown_details u p,
       calls := calls s @ [Predict Ensemble, PredictProba Ensemble]\<rparr>)"
  using assms
  by (simp add: predict_and_show_def invoke_def lift_def getitem_def then_do_def
      show_ensemble_ok shown_details_def display_def ret_def)

lemma predict_and_show_predict_raises:
  assumes "predict ens vec = Inl e"
  shows "predict_and_show bnb svm ens u p vec s =
    (Inl e, s\<lparr>calls := calls s @ [Predict Ensemble]\<rparr>)"
  using assms by (simp add: predict_and_show_def invoke_def then_do_def)

lemma predict_and_show_proba_raises:
  assumes "predict ens vec = Inr (l # ls)" "predict_proba ens vec = Inl e"
  shows "predict_and_show bnb svm ens u p vec s =
    (Inl e, s\<lparr>calls := calls s @ [Predict Ensemble, PredictProba Ensemble]\<rparr>)"
  using assms by (simp add: predict_and_show_def invoke_def then_do_def lift_def getitem_def)

lemma predict_and_show_bnb_raises:
  assumes "predict ens vec = Inr (l # ls)"
    and "predict_proba ens vec = Inr ((pn # pp # rest) # rows)"
    and "0 \<le> pn" "pn \<le> 1" "0 \<le> pp" "pp \<le> 1"
    and "show_comparison u"
    and "predict bnb vec = Inl e"
  shows "predict_and_show bnb svm ens u p vec s =
    (Inl e, s\<lparr>shown := shown s @ shown_for_ensemble l pn pp rest @ [ComparisonHeader],
       calls := calls s @ [Predict Ensemble, PredictProba Ensemble, Predict BNB]\<rparr>)"
  using assms
  by (simp add: predict_and_show_def invoke_def lift_def getitem_def then_do_def
      show_ensemble_ok compare_models_bnb_raises)

lemma predict_and_show_svm_raises:
  assumes "predict ens vec = Inr (l # ls)"
    and "predict_proba ens vec = Inr ((pn # pp # rest) # rows)"
    and "0 \<le> pn" "pn \<le> 1" "0 \<le> pp" "pp \<le> 1"
    and "show_comparison u"
    and "predict bnb vec = Inr (lb # lbs)" "predict svm vec = Inl e"
  shows "predict_and_show bnb svm ens u p vec s =
    (Inl e, s\<lparr>shown := shown s @ shown_for_ensemble l pn pp rest @ [ComparisonHeader],
       calls := calls s @ [Predict Ensemble, PredictProba Ensemble, Predict BNB, Predict SVM]\<rparr>)"
  using assms
  by (simp add: predict_and_show_def invoke_def lift_def getitem_def then_do_def
      show_ensemble_ok compare_models_svm_raises)

lemma script_pressed:
  assumes "model_bnb a = Some bnb" "model_svm a = Some svm" "model_ensemble a = Some ens"
    and "vectorizer a = Some vz" "tools a = Some tb" "tb \<noteq> []"
    and "predict_btn u" "strip (input_text u) \<noteq> []"
  shows "script a u =
    (case try_block bnb svm ens vz tb u start of
       (Inl e, s) \<Rightarrow> s\<lparr>shown := shown s @ [PredictionFailed e]\<rparr>
     | (Inr _, s) \<Rightarrow> s)"
  using assms by (simp add: script_def models_loaded_def)

lemma try_block_vectorized:
  assumes "vectorize_input vz tb u s = (Inr (p, vec), s')"
  shows "try_block bnb svm ens vz tb u s = predict_and_show bnb svm ens u p vec s'"
  using assms by (simp add: try_block_def then_do_def)

lemma try_block_not_vectorized:
  assumes "vectorize_input vz tb u s = (Inl e, s')"
  shows "try_block bnb svm ens vz tb u s = (Inl e, s')"
  using assms by (simp add: try_block_def then_do_def)

section \<open>Invariants of the trace\<close>

lemma preserves_ret: "preserves I (ret a)"
  by (simp add: preserves_def ret_def)

lemma preserves_lift: "preserves I (lift r)"
  by (simp add: preserves_def lift_def)

lemma preserves_display: "stable I Q \<Longrightarrow> preserves I (display ev)"
  by (simp add: preserves_def display_def stable_def)

lemma preserves_invoke: "stable I Q \<Longrightarrow> Q c \<Longrightarrow> preserves I (invoke c r)"
  by (simp add: preserves_def invoke_def stable_def)

lemma preserves_then_do:
  assumes "preserves I m" and "\<And>a. preserves I (f a)"
  shows "preserves I (then_do m f)"
  unfolding preserves_def
proof (intro allI impI)
  fix s :: trace assume q: "I s"
  obtain r s' where ms: "m s = (r, s')" by (cases "m s")
  have q': "I s'" using assms(1) q ms by (auto simp: preserves_def)
  show "I (snd (then_do m f s))"
  proof (cases r)
    case (Inl e)
    then show ?thesis using ms q' by (simp add: then_do_def)
  next
    case (Inr a)
    then have "then_do m f s = f a s'" using ms by (simp add: then_do_def)
    then show ?thesis using assms(2)[of a] q' by (simp add: preserves_def)
  qed
qed

lemma preserves_if: "preserves I m \<Longrightarrow> preserves I n \<Longrightarrow> preserves I (if b then m else n)"
  by simp

lemma preserves_progress: "stable I Q \<Longrightarrow> preserves I (progress k v)"
  by (simp add: progress_def preserves_display preserves_lift)

lemma preserves_preprocess_text:
  assumes "stable I Q" "\<And>t. Q (Remove t)" "\<And>t. Q (Stem t)"
  shows "preserves I (preprocess_text text sw sm)"
  unfolding preprocess_text_def
  by (intro preserves_then_do preserves_ret)
     (auto split: option.splits intro: preserves_ret preserves_invoke assms)

lemma preserves_vectorize_input:
  assumes "stable I Q" "\<And>t. Q (Remove t)" "\<And>t. Q (Stem t)" "\<And>t. Q (Transform t)"
  shows "preserves I (vectorize_input vz tb u)"
  unfolding vectorize_input_def
  by (intro preserves_then_do preserves_ret preserves_lift preserves_invoke[OF assms(1)]
      preserves_preprocess_text[OF assms(1)] assms)

lemma preserves_show_ensemble: "stable I Q \<Longrightarrow> preserves I (show_ensemble l row)"
  unfolding show_ensemble_def Let_def
  by (intro preserves_then_do preserves_display preserves_lift preserves_progress)

lemma preserves_compare_models:
  assumes "stable I Q" "Q (Predict BNB)" "Q (Predict SVM)"
  shows "preserves I (compare_models bnb svm vec)"
  unfolding compare_models_def
  by (intro preserves_then_do preserves_display[OF assms(1)] preserves_lift
      preserves_invoke[OF assms(1)] assms)

lemma preserves_comparison:
  assumes "stable I Q" "show_comparison u \<Longrightarrow> Q (Predict BNB) \<and> Q (Predict SVM)"
  shows "preserves I (if show_comparison u then compare_models bnb svm vec else ret ())"
proof (cases "show_comparison u")
  case True
  then show ?thesis using assms by (simp add: preserves_compare_models)
next
  case False
  then show ?thesis by (simp add: preserves_ret)
qed

lemma preserves_details:
  assumes "stable I Q"
  shows "preserves I (if show_details u then display (Details (input_text u) p) else ret ())"
  by (intro preserves_if preserves_display[OF assms] preserves_ret)

lemma preserves_predict_and_show:
  assumes "stable I Q" "Q (Predict Ensemble)" "Q (PredictProba Ensemble)"
    and "show_comparison u \<Longrightarrow> Q (Predict BNB) \<and> Q (Predict SVM)"
  shows "preserves I (predict_and_show bnb svm ens u p vec)"
  unfolding predict_and_show_def
  by (intro preserves_then_do preserves_lift preserves_invoke[OF assms(1)]
      preserves_show_ensemble[OF assms(1)] preserves_comparison[OF assms(1)]
      preserves_details[OF assms(1)] assms)

lemma preserves_try_block:
  assumes "stable I Q" "\<And>t. Q (Remove t)" "\<And>t. Q (Stem t)" "\<And>t. Q (Transform t)"
    and "Q (Predict Ensemble)" "Q (PredictProba Ensemble)"
    and "show_comparison u \<Longrightarrow> Q (Predict BNB) \<and> Q (Predict SVM)"
  shows "preserves I (try_block bnb svm ens vz tb u)"
  unfolding try_block_def
proof (rule preserves_then_do)
  show "preserves I (vectorize_input vz tb u)"
    by (intro preserves_vectorize_input[OF assms(1)] assms)
next
  fix a :: "pystr \<times> 'a"
  show "preserves I (case a of (processed_text, vec) \<Rightarrow>
      predict_and_show bnb svm ens u processed_text vec)"
    by (cases a) (simp add: preserves_predict_and_show[OF assms(1)] assms)
qed

lemma stable_calls: "stable (\<lambda>s. list_all Q (calls s)) Q"
  by (simp add: stable_def)

lemma stable_shown: "stable (\<lambda>s. ev \<in> set (shown s)) (\<lambda>c. True)"
  by (simp add: stable_def)

lemma calls_finish:
  "calls (case r of (Inl e, s) \<Rightarrow> s\<lparr>shown := shown s @ [PredictionFailed e]\<rparr>
          | (Inr _, s) \<Rightarrow> s) = calls (snd r)"
  by (auto split: prod.splits sum.splits)

lemma script_calls:
  assumes "\<And>t. Q (Remove t)" "\<And>t. Q (Stem t)" "\<And>t. Q (Transform t)"
    and "Q (Predict Ensemble)" "Q (PredictProba Ensemble)"
    and "show_comparison u \<Longrightarrow> Q (Predict BNB) \<and> Q (Predict SVM)"
  shows "list_all Q (calls (script a u))"
proof -
  have k: "list_all Q (calls (snd (try_block bnb svm ens vz tb u start)))"
    for bnb svm ens and vz :: "'a vectorizer" and tb
    using preserves_try_block[of "\<lambda>s. list_all Q (calls s)" Q u bnb svm ens vz tb,
        OF stable_calls assms]
    by (simp add: preserves_def start_def)
  show ?thesis
    unfolding script_def
    by (simp add: unavailable_def start_def calls_finish k[unfolded start_def]
        split: option.splits)
qed

section \<open>The examples, evaluated\<close>

lemmas str_defs = normalize_text_def strip_def lower_def lower_char_def is_ascii_letter_def
  isspace_def py_def

lemma ex_normalize: "normalize_text (py ''Bagus, film!'') = py ''bagus film''"
  by (simp add: str_defs)

lemma ex_vectorized:
  assumes "input_text u = py ''Bagus, film!''"
  shows "vectorize_input ex_vectorizer ex_tools u s =
     (Inr (py ''bag'', 3), s\<lparr>calls := calls s @ [Remove (py ''bagus film''), Stem (py ''bagus''),
        Transform [py ''bag'']]\<rparr>)"
  by (simp add: vectorize_input_def preprocess_text_def comp_defs lookup_def ex_tools_def
      assms ex_normalize ex_remove_def ex_stem_def ex_vectorizer_def)
     (simp add: py_def)

lemma ex_script:
  assumes "input_text u = py ''Bagus, film!''" "predict_btn u"
  shows "script (ex_artifacts bnb svm ens) u =
    (case predict_and_show bnb svm ens u (py ''bag'') 3 \<lparr>shown = [], calls = ex_calls\<rparr> of
       (Inl e, s) \<Rightarrow> s\<lparr>shown := shown s @ [PredictionFailed e]\<rparr>
     | (Inr _, s) \<Rightarrow> s)"
proof -
  have "strip (input_text u) \<noteq> []"
    unfolding assms(1) by (simp add: strip_def isspace_def py_def)
  then have "script (ex_artifacts bnb svm ens) u =
    (case try_block bnb svm ens ex_vectorizer ex_tools u start of
       (Inl e, s) \<Rightarrow> s\<lparr>shown := shown s @ [PredictionFailed e]\<rparr>
     | (Inr _, s) \<Rightarrow> s)"
    using assms(2) by (intro script_pressed) (simp_all add: ex_artifacts_def ex_tools_def)
  then show ?thesis
    by (simp add: try_block_vectorized[OF ex_vectorized[OF assms(1)]] start_def ex_calls_def)
qed

lemma ex_ui_simps:
  "input_text ex_ui = py ''Bagus, film!''" "predict_btn ex_ui" "show_comparison ex_ui"
  "\<not> show_details ex_ui"
  by (simp_all add: ex_ui_def)

lemma ex_positive_simps:
  "predict ex_positive v = Inr [StrLabel (py ''positive'')]"
  "predict_proba ex_positive v = Inr [[1 / 8, 7 / 8]]"
  by (simp_all add: ex_positive_def)


lemma ex_numeric_simps:
  "predict ex_numeric v = Inr [IntLabel 1]"
  "predict_proba ex_numeric v = Inr [[1 / 4, 3 / 4]]"
  by (simp_all add: ex_numeric_def)

lemma ex_label_only_simps:
  "predict ex_label_only v = Inr [StrLabel (py ''positive'')]"
  "predict_proba ex_label_only v = Inl (Exception ''predict_proba is not available'')"
  by (simp_all add: ex_label_only_def)

lemma ex_raising_simps:
  "predict ex_raising v = Inl (Exception ''boom'')"
  "predict_proba ex_raising v = Inl (Exception ''boom'')"
  by (simp_all add: ex_raising_def)

section \<open>The confidence classifier\<close>

lemma py_max_Max: "py_max (x # r) = Inr (Max (set (x # r)))"
  by (simp only: py_max_def list.case Max.set_eq_fold)

lemma show_ensemble_max:
  assumes "py_max row = Inr m"
  shows "Confidence (get_confidence_badge (fmul m 100)) (fmul m 100)
     \<in> set (shown (snd (show_ensemble l row s)))"
  unfolding show_ensemble_def using assms
  by (simp add: comp_defs getitem_def progress_def Let_def)

lemma show_ensemble_confidence:
  "Confidence (get_confidence_badge (fmul (Max (set (x # r))) 100)) (fmul (Max (set (x # r))) 100)
     \<in> set (shown (snd (show_ensemble l (x # r) s)))"
  by (rule show_ensemble_max) (rule py_max_Max)

lemma predict_and_show_confidence:
  assumes "predict ens vec = Inr (l # ls)" "predict_proba ens vec = Inr ((x # r) # rows)"
  shows "Confidence (get_confidence_badge (fmul (Max (set (x # r))) 100))
       (fmul (Max (set (x # r))) 100)
     \<in> set (shown (snd (predict_and_show bnb svm ens u p vec s)))"
proof -
  let ?ev = "Confidence (get_confidence_badge (fmul (Max (set (x # r))) 100))
    (fmul (Max (set (x # r))) 100)"
  let ?s1 = "s\<lparr>calls := calls s @ [Predict Ensemble, PredictProba Ensemble]\<rparr>"
  let ?rest = "\<lambda>_::unit. then_do (if show_comparison u then compare_models bnb svm vec else ret ())
     (\<lambda>_. if show_details u then display (Details (input_text u) p) else ret ())"
  have eq: "predict_and_show bnb svm ens u p vec s =
      then_do (show_ensemble l (x # r)) ?rest ?s1"
    using assms by (simp add: predict_and_show_def invoke_def lift_def getitem_def then_do_def)
  have "preserves (\<lambda>s. ?ev \<in> set (shown s)) (?rest ())"
    by (intro preserves_then_do preserves_comparison[OF stable_shown]
        preserves_details[OF stable_shown]) simp
  then have rest: "?ev \<in> set (shown (snd (?rest () t)))" if "?ev \<in> set (shown t)" for t
    using that by (simp add: preserves_def)
  obtain q t where se: "show_ensemble l (x # r) ?s1 = (q, t)"
    by (cases "show_ensemble l (x # r) ?s1")
  have t: "?ev \<in> set (shown t)"
    using show_ensemble_confidence[of x r l ?s1] se by simp
  show ?thesis
  proof (cases q)
    case (Inl e)
    then show ?thesis using eq se t by (simp add: then_do_def)
  next
    case (Inr a)
    then have "predict_and_show bnb svm ens u p vec s = ?rest () t"
      using eq se by (simp add: then_do_def)
    then show ?thesis using rest[OF t] by simp
  qed
qed

text \<open>
  Claim C2. \<open>get_confidence_badge\<close> is a total function of a real percentage: it answers
  Tinggi (High) exactly above 80, Sedang (Medium) exactly above 60 and up to 80, Rendah
  (Low) exactly up to 60, so that 81 and 100 are High, 80 is Medium, 60 and 0 are Low; and
  the badge a run shows for the ensemble's probability pair \<open>[pn, pp]\<close>, two floats
  within \<open>[0, 1]\<close>, is the classifier's answer on \<open>max(pn, pp) * 100\<close>, the product
  being the one of line 140, a product of floats.
\<close>

theorem confidence_badge_thresholds:
  "(fst (get_confidence_badge p) = Tinggi \<longleftrightarrow> p > 80) \<and>
   (fst (get_confidence_badge p) = Sedang \<longleftrightarrow> 60 < p \<and> p \<le> 80) \<and>
   (fst (get_confidence_badge p) = Rendah \<longleftrightarrow> p \<le> 60) \<and>
   get_confidence_badge 81 = (Tinggi, Success) \<and>
   get_confidence_badge 80 = (Sedang, Warning) \<and>
   get_confidence_badge 60 = (Rendah, Error) \<and>
   get_confidence_badge 100 = (Tinggi, Success) \<and>
   get_confidence_badge 0 = (Rendah, Error) \<and>
   (predict ens vec = Inr (l # ls) \<longrightarrow> predict_proba ens vec = Inr ([pn, pp] # rows) \<longrightarrow>
    0 \<le> pn \<and> pn \<le> 1 \<and> 0 \<le> pp \<and> pp \<le> 1 \<longrightarrow>
      Confidence (get_confidence_badge (fmul (max pn pp) 100)) (fmul (max pn pp) 100)
        \<in> set (shown (snd (predict_and_show bnb svm ens u t vec s))))"
proof -
  have "Max (set [pn, pp]) = max pn pp" by simp
  then show ?thesis
    using predict_and_show_confidence[of ens vec l ls pn "[pp]" rows bnb svm u t s]
    by (simp add: get_confidence_badge_def)
qed

text \<open>
  At the pair of the doubles nearest to 0.2 and 0.8 the float product is 80.0 and the
  badge is Sedang, where the exact product, above 80, would give Tinggi.
\<close>

theorem confidence_badge_thresholds_witness:
  "predict ex_boundary (3::nat) = Inr [StrLabel (py ''positive'')] \<and>
   predict_proba ex_boundary (3::nat) =
     Inr [[3602879701896397 / 2 ^ 54, 3602879701896397 / 2 ^ 52]] \<and>
   (0::real) \<le> 3602879701896397 / 2 ^ 54 \<and> 3602879701896397 / 2 ^ 52 \<le> (1::real) \<and>
   Confidence (Sedang, Warning) 80
     \<in> set (shown (snd (predict_and_show ex_negative ex_negative ex_boundary ex_ui
          (py ''bag'') (3::nat) start))) \<and>
   get_confidence_badge (3602879701896397 / 2 ^ 52 * 100) = (Tinggi, Success)"
proof -
  have m: "max (3602879701896397 / 2 ^ 54) (3602879701896397 / 2 ^ 52) =
      (3602879701896397 / 2 ^ 52 :: real)"
    by simp
  have range: "(0::real) \<le> 3602879701896397 / 2 ^ 54 \<and> 3602879701896397 / 2 ^ 54 \<le> (1::real) \<and>
      (0::real) \<le> 3602879701896397 / 2 ^ 52 \<and> 3602879701896397 / 2 ^ 52 \<le> (1::real)"
    by simp
  show ?thesis
    using confidence_badge_thresholds[of 80 ex_boundary "3::nat" "StrLabel (py ''positive'')"
      "[]" "3602879701896397 / 2 ^ 54" "3602879701896397 / 2 ^ 52" "[]"
      ex_negative ex_negative ex_ui "py ''bag''" start] fmul_double_08 range
    by (simp only: m) (simp add: ex_boundary_def get_confidence_badge_def)
qed

section \<open>Blank input\<close>

text \<open>
  Claim C3. On an input that is empty or holds whitespace only, no run calls a method of
  the vectorizer, of a classifier or of a linguistic tool; and with the artifacts loaded
  and the button pressed, the page holds the empty-input warning and nothing else: an
  event of its own kind, neither the failure message of the \<open>try\<close> block nor the
  unavailable state.
\<close>

theorem empty_input_rejected:
  assumes "list_all isspace (input_text u)"
  shows "calls (script a u) = [] \<and>
    (models_loaded a \<longrightarrow> predict_btn u \<longrightarrow>
       script a u = \<lparr>shown = [EmptyInputWarning], calls = []\<rparr>) \<and>
    EmptyInputWarning \<noteq> PredictionFailed e \<and> EmptyInputWarning \<noteq> Unavailable"
proof -
  have "strip (input_text u) = []" using assms by (simp add: strip_empty_iff)
  then show ?thesis
    by (auto simp: script_def models_loaded_def unavailable_def start_def
        split: option.splits)
qed

theorem empty_input_rejected_witness:
  "list_all isspace [32, 9, 160, 12288] \<and>
   models_loaded (ex_artifacts ex_raising ex_raising ex_raising) \<and> predict_btn ex_ui \<and>
   script (ex_artifacts ex_raising ex_raising ex_raising) (ex_ui\<lparr>input_text := [32, 9, 160, 12288]\<rparr>)
     = \<lparr>shown = [EmptyInputWarning], calls = []\<rparr>"
proof -
  have a: "models_loaded (ex_artifacts ex_raising ex_raising ex_raising)"
    by (simp add: models_loaded_def ex_artifacts_def ex_tools_def)
  have b: "predict_btn (ex_ui\<lparr>input_text := [32, 9, 160, 12288]\<rparr>)"
    by (simp add: ex_ui_def)
  have c: "list_all isspace (input_text (ex_ui\<lparr>input_text := [32, 9, 160, 12288]\<rparr>))"
    by (simp add: isspace_def)
  show ?thesis
    using empty_input_rejected[OF c, of "ex_artifacts ex_raising ex_raising ex_raising"] a b c
    by (simp add: ex_ui_def)
qed

section \<open>The comparison flag\<close>

lemma predict_and_show_base_irrelevant:
  "\<not> show_comparison u \<Longrightarrow>
   predict_and_show bnb svm ens u p vec = predict_and_show bnb' svm' ens u p vec"
  by (simp add: predict_and_show_def)

lemma try_block_base_irrelevant:
  "\<not> show_comparison u \<Longrightarrow>
   try_block bnb svm ens vz tb u = try_block bnb' svm' ens vz tb u"
  by (simp add: try_block_def predict_and_show_base_irrelevant[of u bnb svm ens _ _ bnb' svm'])

lemma script_base_irrelevant:
  assumes "\<not> show_comparison u"
  shows "script (a\<lparr>model_bnb := Some bnb, model_svm := Some svm\<rparr>) u =
         script (a\<lparr>model_bnb := Some bnb', model_svm := Some svm'\<rparr>) u"
  using try_block_base_irrelevant[OF assms, of bnb svm _ _ _ bnb' svm']
  by (simp add: script_def models_loaded_def split: option.splits)

text \<open>
  Claim C4. When the comparison box is not ticked, a run calls neither \<open>predict\<close> nor
  \<open>predict_proba\<close> of the two base classifiers, whatever the input; and the run is the
  same for any two choices of (loaded) base classifiers.
\<close>

theorem no_comparison_no_base_calls:
  assumes "\<not> show_comparison u"
  shows "Predict BNB \<notin> set (calls (script a u)) \<and>
         Predict SVM \<notin> set (calls (script a u)) \<and>
         PredictProba BNB \<notin> set (calls (script a u)) \<and>
         PredictProba SVM \<notin> set (calls (script a u)) \<and>
         script (a\<lparr>model_bnb := Some bnb, model_svm := Some svm\<rparr>) u =
         script (a\<lparr>model_bnb := Some bnb', model_svm := Some svm'\<rparr>) u"
proof -
  let ?Q = "\<lambda>c. c \<noteq> Predict BNB \<and> c \<noteq> Predict SVM \<and> c \<noteq> PredictProba BNB \<and>
    c \<noteq> PredictProba SVM"
  have "list_all ?Q (calls (script a u))"
    by (rule script_calls) (use assms in simp_all)
  then have "\<forall>c \<in> set (calls (script a u)). ?Q c" by (simp add: list_all_iff)
  then show ?thesis using script_base_irrelevant[OF assms] by blast
qed

theorem no_comparison_no_base_calls_witness:
  "\<not> show_comparison (ex_ui\<lparr>show_comparison := False\<rparr>) \<and>
   calls (script (ex_artifacts ex_raising ex_raising ex_positive)
      (ex_ui\<lparr>show_comparison := False\<rparr>)) =
     [Remove (py ''bagus film''), Stem (py ''bagus''), Transform [py ''bag''],
      Predict Ensemble, PredictProba Ensemble] \<and>
   Predict BNB \<notin> set (calls (script (ex_artifacts ex_raising ex_raising ex_positive)
      (ex_ui\<lparr>show_comparison := False\<rparr>))) \<and>
   script (ex_artifacts ex_raising ex_raising ex_positive) (ex_ui\<lparr>show_comparison := False\<rparr>) =
   script (ex_artifacts ex_positive ex_negative ex_positive) (ex_ui\<lparr>show_comparison := False\<rparr>)"
proof -
  let ?u = "ex_ui\<lparr>show_comparison := False\<rparr>"
  have h: "\<not> show_comparison ?u" by simp
  have "predict_and_show ex_raising ex_raising ex_positive ?u (py ''bag'') 3
      \<lparr>shown = [], calls = ex_calls\<rparr> =
    (Inr (), \<lparr>shown = [], calls = ex_calls\<rparr>\<lparr>shown := shown \<lparr>shown = [], calls = ex_calls\<rparr> @
        shown_for_ensemble (StrLabel (py ''positive'')) (1 / 8) (7 / 8) [] @
        shown_details ?u (py ''bag''),
      calls := calls \<lparr>shown = [], calls = ex_calls\<rparr> @
        [Predict Ensemble, PredictProba Ensemble]\<rparr>)"
    by (rule predict_and_show_no_comparison) (simp_all add: ex_positive_simps)
  then have c: "calls (script (ex_artifacts ex_raising ex_raising ex_positive) ?u) =
     [Remove (py ''bagus film''), Stem (py ''bagus''), Transform [py ''bag''],
      Predict Ensemble, PredictProba Ensemble]"
    by (simp add: ex_script ex_ui_simps ex_calls_def)
  have e: "ex_artifacts b1 b2 ex_positive =
      (ex_artifacts ex_positive ex_positive ex_positive)\<lparr>model_bnb := Some b1, model_svm := Some b2\<rparr>"
    for b1 b2
    by (simp add: ex_artifacts_def)
  show ?thesis
    using no_comparison_no_base_calls[where u = ?u
        and a = "ex_artifacts ex_positive ex_positive ex_positive"
        and bnb = ex_raising and svm = ex_raising
        and bnb' = ex_positive and svm' = ex_negative, OF h] c
    by (simp add: e[symmetric])
qed

section \<open>The reducer\<close>

lemma preprocess_text_plain:
  "preprocess_text text None None s = (Inr (normalize_text text), s)"
  by (simp add: preprocess_text_def comp_defs)

lemma missing_tool_key_raises:
  "map_of tb ''stopword'' = None \<Longrightarrow>
   vectorize_input vz tb u s = (Inl (KeyError ''stopword''), s)"
  "map_of tb ''stopword'' = Some sw \<Longrightarrow> map_of tb ''stemmer'' = None \<Longrightarrow>
   vectorize_input vz tb u s = (Inl (KeyError ''stemmer''), s)"
  by (simp_all add: vectorize_input_def lookup_def comp_defs)

lemma vectorize_input_tools:
  assumes "map_of tb ''stopword'' = Some sw" "map_of tb ''stemmer'' = Some sm"
  shows "preprocess_text (input_text u) sw sm s = (Inr p, s') \<Longrightarrow>
      vectorize_input vz tb u s =
        (map_sum id (Pair p) (vz [p]), s'\<lparr>calls := calls s' @ [Transform [p]]\<rparr>)"
    and "preprocess_text (input_text u) sw sm s = (Inl e, s') \<Longrightarrow>
      vectorize_input vz tb u s = (Inl e, s')"
  using assms
  by (auto simp: vectorize_input_def lookup_def comp_defs split: sum.splits)

lemma script_missing_key:
  assumes "model_bnb a = Some bnb" "model_svm a = Some svm" "model_ensemble a = Some ens"
    and "vectorizer a = Some vz" "tools a = Some tb" "tb \<noteq> []"
    and "predict_btn u" "strip (input_text u) \<noteq> []"
  shows "map_of tb ''stopword'' = None \<Longrightarrow>
      script a u = \<lparr>shown = [PredictionFailed (KeyError ''stopword'')], calls = []\<rparr>"
    and "map_of tb ''stopword'' = Some sw \<Longrightarrow> map_of tb ''stemmer'' = None \<Longrightarrow>
      script a u = \<lparr>shown = [PredictionFailed (KeyError ''stemmer'')], calls = []\<rparr>"
proof -
  note run = script_pressed[OF assms]
  show "script a u = \<lparr>shown = [PredictionFailed (KeyError ''stopword'')], calls = []\<rparr>"
    if "map_of tb ''stopword'' = None"
    using run try_block_not_vectorized[OF missing_tool_key_raises(1)[OF that], of bnb svm ens vz u start]
    by (simp add: start_def)
  show "script a u = \<lparr>shown = [PredictionFailed (KeyError ''stemmer'')], calls = []\<rparr>"
    if "map_of tb ''stopword'' = Some sw" "map_of tb ''stemmer'' = None"
    using run try_block_not_vectorized[OF missing_tool_key_raises(2)[OF that], of bnb svm ens vz u start]
    by (simp add: start_def)
qed

text \<open>
  Claim C5 as stated fails on a bundle from which a capability is absent as a key: the
  lookup of lines 122 and 123 raises \<open>KeyError\<close> and the page reports the failure,
  after no call of a tool, of the vectorizer or of a classifier.
\<close>

theorem missing_tool_counterexample:
  "script ((ex_artifacts ex_positive ex_positive ex_positive)
      \<lparr>tools := Some [(''stemmer'', Some ex_stem)]\<rparr>) ex_ui =
     \<lparr>shown = [PredictionFailed (KeyError ''stopword'')], calls = []\<rparr> \<and>
   script ((ex_artifacts ex_positive ex_positive ex_positive)
      \<lparr>tools := Some [(''stopword'', None)]\<rparr>) ex_ui =
     \<lparr>shown = [PredictionFailed (KeyError ''stemmer'')], calls = []\<rparr>"
proof -
  have nb: "strip (input_text ex_ui) \<noteq> []"
    by (simp add: ex_ui_def strip_def isspace_def py_def)
  have 1: "script ((ex_artifacts ex_positive ex_positive ex_positive)
      \<lparr>tools := Some [(''stemmer'', Some ex_stem)]\<rparr>) ex_ui =
     \<lparr>shown = [PredictionFailed (KeyError ''stopword'')], calls = []\<rparr>"
    by (rule script_missing_key(1)[where bnb = ex_positive and svm = ex_positive
          and ens = ex_positive and vz = ex_vectorizer and tb = "[(''stemmer'', Some ex_stem)]"])
       (simp_all add: ex_artifacts_def ex_ui_simps nb[unfolded ex_ui_simps(1)])
  have 2: "script ((ex_artifacts ex_positive ex_positive ex_positive)
      \<lparr>tools := Some [(''stopword'', None)]\<rparr>) ex_ui =
     \<lparr>shown = [PredictionFailed (KeyError ''stemmer'')], calls = []\<rparr>"
    by (rule script_missing_key(2)[where bnb = ex_positive and svm = ex_positive
          and ens = ex_positive and vz = ex_vectorizer and tb = "[(''stopword'', None)]"
          and sw = None])
       (simp_all add: ex_artifacts_def ex_ui_simps nb[unfolded ex_ui_simps(1)])
  show ?thesis using 1 2 by simp
qed

text \<open>
  Claim C5, as the code has it. \<open>preprocess_text\<close> hands the normalized text to the
  stopword remover first and the remover's result to the stemmer second; a tool that is
  \<open>None\<close> is skipped without a call and without an error, so that with neither tool the
  result is the normalized text. On every bundle that holds both keys, a run hands the
  two values found under \<open>stopword\<close> and \<open>stemmer\<close>, in this order, with the input
  text to \<open>preprocess_text\<close>, and its result to the vectorizer; on a bundle that lacks
  a key, the lookup raises \<open>KeyError\<close>, nothing is called, and the page reports the
  failure.
\<close>

theorem reducer_order_and_skips:
  "preprocess_text raw None None s = (Inr (normalize_text raw), s) \<and>
   preprocess_text raw None (Some stem) s =
     (stem (normalize_text raw), s\<lparr>calls := calls s @ [Stem (normalize_text raw)]\<rparr>) \<and>
   preprocess_text raw (Some remove) None s =
     (remove (normalize_text raw), s\<lparr>calls := calls s @ [Remove (normalize_text raw)]\<rparr>) \<and>
   (remove (normalize_text raw) = Inr t \<longrightarrow>
      preprocess_text raw (Some remove) (Some stem) s =
        (stem t, s\<lparr>calls := calls s @ [Remove (normalize_text raw), Stem t]\<rparr>)) \<and>
   (remove (normalize_text raw) = Inl e \<longrightarrow>
      preprocess_text raw (Some remove) (Some stem) s =
        (Inl e, s\<lparr>calls := calls s @ [Remove (normalize_text raw)]\<rparr>)) \<and>
   (map_of tb ''stopword'' = Some sw \<longrightarrow> map_of tb ''stemmer'' = Some sm \<longrightarrow>
      (preprocess_text (input_text u) sw sm s = (Inr p, s') \<longrightarrow>
         vectorize_input vz tb u s =
           (map_sum id (Pair p) (vz [p]), s'\<lparr>calls := calls s' @ [Transform [p]]\<rparr>)) \<and>
      (preprocess_text (input_text u) sw sm s = (Inl e, s') \<longrightarrow>
         vectorize_input vz tb u s = (Inl e, s'))) \<and>
   (map_of tb ''stopword'' = None \<longrightarrow>
      vectorize_input vz tb u s = (Inl (KeyError ''stopword''), s)) \<and>
   (map_of tb ''stopword'' = Some sw \<longrightarrow> map_of tb ''stemmer'' = None \<longrightarrow>
      vectorize_input vz tb u s = (Inl (KeyError ''stemmer''), s)) \<and>
   (model_bnb a = Some bnb \<and> model_svm a = Some svm \<and> model_ensemble a = Some ens \<and>
    vectorizer a = Some vz \<and> tools a = Some tb \<and> tb \<noteq> [] \<and> predict_btn u \<and>
    strip (input_text u) \<noteq> [] \<longrightarrow>
      (map_of tb ''stopword'' = None \<longrightarrow>
         script a u = \<lparr>shown = [PredictionFailed (KeyError ''stopword'')], calls = []\<rparr>) \<and>
      (map_of tb ''stopword'' = Some sw \<longrightarrow> map_of tb ''stemmer'' = None \<longrightarrow>
         script a u = \<lparr>shown = [PredictionFailed (KeyError ''stemmer'')], calls = []\<rparr>))"
proof -
  have pre: "preprocess_text raw None None s = (Inr (normalize_text raw), s) \<and>
   preprocess_text raw None (Some stem) s =
     (stem (normalize_text raw), s\<lparr>calls := calls s @ [Stem (normalize_text raw)]\<rparr>) \<and>
   preprocess_text raw (Some remove) None s =
     (remove (normalize_text raw), s\<lparr>calls := calls s @ [Remove (normalize_text raw)]\<rparr>) \<and>
   (remove (normalize_text raw) = Inr t \<longrightarrow>
      preprocess_text raw (Some remove) (Some stem) s =
        (stem t, s\<lparr>calls := calls s @ [Remove (normalize_text raw), Stem t]\<rparr>)) \<and>
   (remove (normalize_text raw) = Inl e \<longrightarrow>
      preprocess_text raw (Some remove) (Some stem) s =
        (Inl e, s\<lparr>calls := calls s @ [Remove (normalize_text raw)]\<rparr>))"
    by (auto simp: preprocess_text_def comp_defs split: sum.splits)
  have vec: "map_of tb ''stopword'' = Some sw \<longrightarrow> map_of tb ''stemmer'' = Some sm \<longrightarrow>
      (preprocess_text (input_text u) sw sm s = (Inr p, s') \<longrightarrow>
         vectorize_input vz tb u s =
           (map_sum id (Pair p) (vz [p]), s'\<lparr>calls := calls s' @ [Transform [p]]\<rparr>)) \<and>
      (preprocess_text (input_text u) sw sm s = (Inl e, s') \<longrightarrow>
         vectorize_input vz tb u s = (Inl e, s'))"
    using vectorize_input_tools[of tb sw sm] by blast
  have key: "(map_of tb ''stopword'' = None \<longrightarrow>
      vectorize_input vz tb u s = (Inl (KeyError ''stopword''), s)) \<and>
   (map_of tb ''stopword'' = Some sw \<longrightarrow> map_of tb ''stemmer'' = None \<longrightarrow>
      vectorize_input vz tb u s = (Inl (KeyError ''stemmer''), s))"
    using missing_tool_key_raises[of tb] by blast
  have page: "model_bnb a = Some bnb \<and> model_svm a = Some svm \<and> model_ensemble a = Some ens \<and>
    vectorizer a = Some vz \<and> tools a = Some tb \<and> tb \<noteq> [] \<and> predict_btn u \<and>
    strip (input_text u) \<noteq> [] \<longrightarrow>
      (map_of tb ''stopword'' = None \<longrightarrow>
         script a u = \<lparr>shown = [PredictionFailed (KeyError ''stopword'')], calls = []\<rparr>) \<and>
      (map_of tb ''stopword'' = Some sw \<longrightarrow> map_of tb ''stemmer'' = None \<longrightarrow>
         script a u = \<lparr>shown = [PredictionFailed (KeyError ''stemmer'')], calls = []\<rparr>)"
  proof (intro impI conjI; elim conjE)
    assume h: "model_bnb a = Some bnb" "model_svm a = Some svm" "model_ensemble a = Some ens"
      "vectorizer a = Some vz" "tools a = Some tb" "tb \<noteq> []" "predict_btn u"
      "strip (input_text u) \<noteq> []"
    show "script a u = \<lparr>shown = [PredictionFailed (KeyError ''stopword'')], calls = []\<rparr>"
      if "map_of tb ''stopword'' = None"
      using script_missing_key(1)[OF h that] .
    show "script a u = \<lparr>shown = [PredictionFailed (KeyError ''stemmer'')], calls = []\<rparr>"
      if "map_of tb ''stopword'' = Some sw" "map_of tb ''stemmer'' = None"
      using script_missing_key(2)[OF h that] .
  qed
  show ?thesis
    using pre vec key page by blast
qed

theorem reducer_order_and_skips_witness:
  "ex_remove (normalize_text (py ''Bagus, film!'')) = Inr (py ''bagus'') \<and>
   preprocess_text (py ''Bagus, film!'') (Some ex_remove) (Some ex_stem) start =
     (Inr (py ''bag''), \<lparr>shown = [], calls = [Remove (py ''bagus film''), Stem (py ''bagus'')]\<rparr>) \<and>
   preprocess_text (py ''Bagus, film!'') None None start = (Inr (py ''bagus film''), start) \<and>
   map_of ex_tools ''stopword'' = Some (Some ex_remove) \<and>
   map_of ex_tools ''stemmer'' = Some (Some ex_stem) \<and>
   vectorize_input ex_vectorizer ex_tools ex_ui start =
     (Inr (py ''bag'', 3), \<lparr>shown = [], calls = [Remove (py ''bagus film''), Stem (py ''bagus''),
        Transform [py ''bag'']]\<rparr>) \<and>
   map_of [(''stemmer'', Some ex_stem)] ''stopword'' = None \<and>
   vectorize_input ex_vectorizer [(''stemmer'', Some ex_stem)] ex_ui start =
     (Inl (KeyError ''stopword''), start)"
proof -
  have r: "ex_remove (normalize_text (py ''Bagus, film!'')) = Inr (py ''bagus'')"
    by (simp add: ex_normalize ex_remove_def) (simp add: py_def)
  have st: "ex_stem (py ''bagus'') = Inr (py ''bag'')"
    by (simp add: ex_stem_def py_def)
  have k: "map_of ex_tools ''stopword'' = Some (Some ex_remove)"
    "map_of ex_tools ''stemmer'' = Some (Some ex_stem)"
    "map_of [(''stemmer'', Some ex_stem)] ''stopword'' = None"
    by (simp_all add: ex_tools_def)
  have v: "ex_vectorizer [py ''bag''] = Inr 3"
    by (simp add: ex_vectorizer_def py_def)
  note both_keys = reducer_order_and_skips[where raw = "py ''Bagus, film!''" and s = start
      and stem = ex_stem and remove = ex_remove and t = "py ''bagus''"
      and tb = ex_tools and sw = "Some ex_remove" and sm = "Some ex_stem" and u = ex_ui
      and p = "py ''bag''"
      and s' = "\<lparr>shown = [], calls = [Remove (py ''bagus film''), Stem (py ''bagus'')]\<rparr>"
      and vz = ex_vectorizer]
  note no_key = reducer_order_and_skips[where raw = "py ''Bagus, film!''" and s = start
      and tb = "[(''stemmer'', Some ex_stem)]" and u = ex_ui and vz = ex_vectorizer]
  show ?thesis
    using both_keys no_key r st k v
    by (simp add: ex_normalize ex_ui_simps start_def)
qed

section \<open>Normalization\<close>

text \<open>
  Claim C6. With neither tool, \<open>preprocess_text\<close> returns the normalized text, and that
  text matches the pattern \<open>^[a-z]*( [a-z]+)*$\<close>: it holds lowercase ASCII letters and
  single spaces only, and neither starts nor ends with a space.
\<close>

theorem normalized_text_shape:
  "fst (preprocess_text s None None t) = Inr (normalize_text s) \<and>
   matches norm_rexp (normalize_text s) \<and> normal_form (normalize_text s)"
proof -
  have nf: "normal_form (normalize_text s)" using normalize_eq_strip by blast
  then have "normalize_text s \<in> lang norm_rexp" by (rule normal_form_lang)
  then have "matches norm_rexp (normalize_text s)" by (simp add: matches_lang)
  then show ?thesis using nf by (simp add: preprocess_text_plain)
qed

theorem normalized_text_shape_witness:
  "preprocess_text (py ''Bagus, film!'') None None start = (Inr (py ''bagus film''), start) \<and>
   matches norm_rexp (py ''bagus film'') \<and> normal_form (py ''bagus film'')"
  using normalized_text_shape[of "py ''Bagus, film!''" start]
  by (simp add: ex_normalize preprocess_text_plain)

text \<open>
  Claim C9. Normalization is idempotent, on every string (those of letters and spaces
  among them): normalizing a normalized text gives it back, also through
  \<open>preprocess_text\<close> with neither tool.
\<close>

theorem normalize_idempotent:
  "normalize_text (normalize_text s) = normalize_text s \<and>
   fst (preprocess_text (normalize_text s) None None t) = fst (preprocess_text s None None t)"
proof -
  have "normal_form (normalize_text s)" using normalize_eq_strip by blast
  then have "normalize_text (normalize_text s) = normalize_text s" by (rule normalize_fixpoint)
  then show ?thesis by (simp add: preprocess_text_plain)
qed

theorem normalize_idempotent_witness:
  "normalize_text (py ''bagus film'') = py ''bagus film'' \<and>
   normalize_text (py ''Bagus, film!'') = py ''bagus film''"
  using normalize_idempotent[of "py ''Bagus, film!''" start]
  by (simp add: ex_normalize)

section \<open>Loading\<close>

lemma load_fails_nothing:
  assumes "load_fails f"
  shows "\<exists>e. load_model_objects f = (nothing_loaded, [LoadFailed e])"
  using assms
  by (auto simp: load_fails_def load_model_objects_def load_failed_def isl_def
      split: sum.splits)

lemma script_not_loaded: "\<not> models_loaded a \<Longrightarrow> script a u = unavailable"
  by (simp add: script_def)

text \<open>
  Claim C7. When the load of any of the five artifacts raises, the loader reports it and
  hands out five times \<open>None\<close>; every run of the page on that result, whatever the
  input and the buttons, shows the unavailable state and calls no method of any
  artifact. The same holds for every run on artifacts of which one is \<open>None\<close>.
\<close>

theorem load_failure_unavailable:
  "(load_fails f \<longrightarrow>
      (\<exists>e. shown (app f u) = [LoadFailed e, Unavailable]) \<and> calls (app f u) = []) \<and>
   (\<not> models_loaded a \<longrightarrow> script a u = \<lparr>shown = [Unavailable], calls = []\<rparr>)"
proof -
  have "script (nothing_loaded :: 'a artifacts) u = unavailable"
    by (rule script_not_loaded) (simp add: models_loaded_def nothing_loaded_def)
  then have "(\<exists>e. shown (app f u) = [LoadFailed e, Unavailable]) \<and> calls (app f u) = []"
    if "load_fails f"
    using load_fails_nothing[OF that] by (auto simp: app_def unavailable_def)
  then show ?thesis using script_not_loaded[of a u] by (simp add: unavailable_def)
qed

theorem load_failure_unavailable_witness:
  "load_fails ex_files \<and>
   app ex_files ex_ui =
     \<lparr>shown = [LoadFailed (FileNotFoundError ''vectorizer_tfidf.pkl''), Unavailable], calls = []\<rparr> \<and>
   \<not> models_loaded ((ex_artifacts ex_positive ex_positive ex_positive)\<lparr>tools := Some []\<rparr>) \<and>
   script ((ex_artifacts ex_positive ex_positive ex_positive)\<lparr>tools := Some []\<rparr>) ex_ui =
     \<lparr>shown = [Unavailable], calls = []\<rparr>"
proof -
  have l: "load_fails ex_files" by (simp add: load_fails_def ex_files_def)
  have m: "\<not> models_loaded ((ex_artifacts ex_positive ex_positive ex_positive)\<lparr>tools := Some []\<rparr>)"
    by (simp add: models_loaded_def)
  have "load_model_objects ex_files =
      (nothing_loaded, [LoadFailed (FileNotFoundError ''vectorizer_tfidf.pkl'')])"
    by (simp add: load_model_objects_def ex_files_def load_failed_def)
  then have "shown (app ex_files ex_ui) =
      LoadFailed (FileNotFoundError ''vectorizer_tfidf.pkl'') #
        shown (script (nothing_loaded :: nat artifacts) ex_ui)"
    by (simp add: app_def Let_def)
  then show ?thesis
    using l m load_failure_unavailable[of ex_files ex_ui
        "(ex_artifacts ex_positive ex_positive ex_positive)\<lparr>tools := Some []\<rparr>"]
    by auto
qed

section \<open>Prediction and its failures\<close>

lemma fold_max_Max: "fold max (pp # rest) pn = Max (set (pn # pp # rest))"
  by (simp only: Max.set_eq_fold)

lemma shown_for_ensemble_eq:
  "shown_for_ensemble l pn pp rest =
     [ResultHeader, Sentiment (polarity_of l),
      Confidence (get_confidence_badge (fmul (Max (set (pn # pp # rest))) 100))
        (fmul (Max (set (pn # pp # rest))) 100),
      Progress Positif pp, Progress Negatif pn]"
  unfolding shown_for_ensemble_def Let_def fold_max_Max by (rule refl)

lemma script_vectorized:
  assumes "model_bnb a = Some bnb" "model_svm a = Some svm" "model_ensemble a = Some ens"
    and "vectorizer a = Some vz" "tools a = Some tb" "tb \<noteq> []"
    and "predict_btn u" "strip (input_text u) \<noteq> []"
    and "vectorize_input vz tb u start = (Inr (p, vec), s0)"
  shows "script a u =
    (case predict_and_show bnb svm ens u p vec s0 of
       (Inl e, s) \<Rightarrow> s\<lparr>shown := shown s @ [PredictionFailed e]\<rparr>
     | (Inr _, s) \<Rightarrow> s)"
    and "shown s0 = []"
proof -
  show "script a u =
    (case predict_and_show bnb svm ens u p vec s0 of
       (Inl e, s) \<Rightarrow> s\<lparr>shown := shown s @ [PredictionFailed e]\<rparr>
     | (Inr _, s) \<Rightarrow> s)"
    using script_pressed[OF assms(1-8)] try_block_vectorized[OF assms(9)] by simp
  show "shown s0 = []"
    using vectorize_input_shown[of vz tb u start] assms(9) by (simp add: start_def)
qed


lemma script_never_base_proba:
  "PredictProba BNB \<notin> set (calls (script a u)) \<and> PredictProba SVM \<notin> set (calls (script a u))"
proof -
  have "list_all (\<lambda>c. c \<noteq> PredictProba BNB \<and> c \<noteq> PredictProba SVM) (calls (script a u))"
    by (rule script_calls) simp_all
  then show ?thesis by (auto simp: list_all_iff)
qed

text \<open>
  Claim C1, as the code has it. With the comparison requested and the calls succeeding
  (labels returned, an ensemble row of at least two probabilities within \<open>[0, 1]\<close>), the
  prediction step shows, for the ensemble, a positive or negative label, the confidence
  and both probabilities, and for each base model a positive or negative label only; it
  calls \<open>predict\<close> and \<open>predict_proba\<close> of the ensemble and \<open>predict\<close> of each base
  model, and no run ever calls \<open>predict_proba\<close> of a base model.
\<close>

theorem comparison_shows_base_labels:
  assumes "predict ens vec = Inr (l # ls)"
    and "predict_proba ens vec = Inr ((pn # pp # rest) # rows)"
    and "0 \<le> pn" "pn \<le> 1" "0 \<le> pp" "pp \<le> 1"
    and "show_comparison u"
    and "predict bnb vec = Inr (lb # lbs)" "predict svm vec = Inr (lv # lvs)"
  shows "predict_and_show bnb svm ens u p vec s =
    (Inr (), s\<lparr>shown := shown s @
         [ResultHeader, Sentiment (polarity_of l),
          Confidence (get_confidence_badge (fmul (Max (set (pn # pp # rest))) 100))
            (fmul (Max (set (pn # pp # rest))) 100),
          Progress Positif pp, Progress Negatif pn,
          ComparisonHeader, BaseSentiment BNB (polarity_of lb),
          BaseSentiment SVM (polarity_of lv)] @
         (if show_details u then [Details (input_text u) p] else []),
       calls := calls s @ [Predict Ensemble, PredictProba Ensemble, Predict BNB, Predict SVM]\<rparr>) \<and>
    PredictProba BNB \<notin> set (calls (script a u')) \<and>
    PredictProba SVM \<notin> set (calls (script a u'))"
  using predict_and_show_ok[OF assms, where p = p and s = s] script_never_base_proba[of a u']
  by (simp add: shown_for_ensemble_eq shown_details_def)

theorem comparison_shows_base_labels_witness:
  "predict ex_positive (3::nat) = Inr [StrLabel (py ''positive'')] \<and>
   predict_proba ex_positive (3::nat) = Inr [[1 / 8, 7 / 8]] \<and>
   show_comparison ex_ui \<and>
   predict ex_label_only (3::nat) = Inr [StrLabel (py ''positive'')] \<and>
   predict ex_numeric (3::nat) = Inr [IntLabel 1] \<and>
   predict_and_show ex_label_only ex_numeric ex_positive ex_ui (py ''bag'') (3::nat) start =
     (Inr (), \<lparr>shown = [ResultHeader, Sentiment Positif, Confidence (Tinggi, Success) (175 / 2),
         Progress Positif (7 / 8), Progress Negatif (1 / 8), ComparisonHeader,
         BaseSentiment BNB Positif, BaseSentiment SVM Negatif],
       calls = [Predict Ensemble, PredictProba Ensemble, Predict BNB, Predict SVM]\<rparr>)"
proof -
  have h: "predict ex_positive (3::nat) = Inr (StrLabel (py ''positive'') # [])"
    "predict_proba ex_positive (3::nat) = Inr ((1 / 8 # 7 / 8 # []) # [])"
    "(0::real) \<le> 1 / 8" "(1::real) / 8 \<le> 1" "(0::real) \<le> 7 / 8" "(7::real) / 8 \<le> 1"
    "show_comparison ex_ui"
    "predict ex_label_only (3::nat) = Inr (StrLabel (py ''positive'') # [])"
    "predict ex_numeric (3::nat) = Inr (IntLabel 1 # [])"
    by (simp_all add: ex_positive_simps ex_label_only_simps ex_numeric_simps ex_ui_simps)
  show ?thesis
    using comparison_shows_base_labels[OF h, where p = "py ''bag''" and s = start
        and a = "ex_artifacts ex_positive ex_positive ex_positive" and u' = ex_ui] h
    by (simp add: start_def polarity_of_def get_confidence_badge_def ex_ui_simps fmul_87)
qed

lemma ex_ensemble_shown:
  "shown_for_ensemble (StrLabel (py ''positive'')) (1 / 8) (7 / 8) [] =
     [ResultHeader, Sentiment Positif, Confidence (Tinggi, Success) (175 / 2),
      Progress Positif (7 / 8), Progress Negatif (1 / 8)]"
  by (simp add: shown_for_ensemble_def polarity_of_def get_confidence_badge_def fmul_87)

lemma ex_run_comparison:
  assumes "predict bnb (3::nat) = Inr [lb]" "predict svm (3::nat) = Inr [lv]"
  shows "script (ex_artifacts bnb svm ex_positive) ex_ui =
    \<lparr>shown = [ResultHeader, Sentiment Positif, Confidence (Tinggi, Success) (175 / 2),
       Progress Positif (7 / 8), Progress Negatif (1 / 8), ComparisonHeader,
       BaseSentiment BNB (polarity_of lb), BaseSentiment SVM (polarity_of lv)],
     calls = ex_calls @ [Predict Ensemble, PredictProba Ensemble, Predict BNB, Predict SVM]\<rparr>"
proof -
  have "predict_and_show bnb svm ex_positive ex_ui (py ''bag'') 3
      \<lparr>shown = [], calls = ex_calls\<rparr> =
    (Inr (), \<lparr>shown = [], calls = ex_calls\<rparr>\<lparr>shown := shown \<lparr>shown = [], calls = ex_calls\<rparr> @
        shown_for_ensemble (StrLabel (py ''positive'')) (1 / 8) (7 / 8) [] @
        [ComparisonHeader, BaseSentiment BNB (polarity_of lb),
         BaseSentiment SVM (polarity_of lv)] @ shown_details ex_ui (py ''bag''),
      calls := calls \<lparr>shown = [], calls = ex_calls\<rparr> @
        [Predict Ensemble, PredictProba Ensemble, Predict BNB, Predict SVM]\<rparr>)"
    by (rule predict_and_show_ok) (simp_all add: ex_positive_simps ex_ui_simps assms)
  then show ?thesis
    by (simp add: ex_script ex_ui_simps ex_ensemble_shown shown_details_def)
qed

text \<open>
  Claim C1 as stated fails: the base models' results carry no probability pair. With
  base models whose \<open>predict_proba\<close> raises, the run completes; the page holds a label
  for each base model and nothing else of them, \<open>predict_proba\<close> of a base model is not
  among the calls, and the page is the same as with base models whose \<open>predict_proba\<close>
  answers.
\<close>

theorem base_probability_counterexample:
  "predict_proba ex_label_only (3::nat) = Inl (Exception ''predict_proba is not available'') \<and>
   script (ex_artifacts ex_label_only ex_label_only ex_positive) ex_ui =
     \<lparr>shown = [ResultHeader, Sentiment Positif, Confidence (Tinggi, Success) (175 / 2),
        Progress Positif (7 / 8), Progress Negatif (1 / 8), ComparisonHeader,
        BaseSentiment BNB Positif, BaseSentiment SVM Positif],
      calls = [Remove (py ''bagus film''), Stem (py ''bagus''), Transform [py ''bag''],
        Predict Ensemble, PredictProba Ensemble, Predict BNB, Predict SVM]\<rparr> \<and>
   script (ex_artifacts ex_label_only ex_label_only ex_positive) ex_ui =
   script (ex_artifacts ex_positive ex_positive ex_positive) ex_ui"
  by (simp add: ex_run_comparison[of _ "StrLabel (py ''positive'')" _ "StrLabel (py ''positive'')"]
      ex_label_only_simps ex_positive_simps polarity_of_def ex_calls_def)

lemma ex_run_bnb_raises:
  assumes "predict bnb (3::nat) = Inl e"
  shows "script (ex_artifacts bnb svm ex_positive) ex_ui =
    \<lparr>shown = [ResultHeader, Sentiment Positif, Confidence (Tinggi, Success) (175 / 2),
       Progress Positif (7 / 8), Progress Negatif (1 / 8), ComparisonHeader,
       PredictionFailed e],
     calls = ex_calls @ [Predict Ensemble, PredictProba Ensemble, Predict BNB]\<rparr>"
proof -
  have "predict_and_show bnb svm ex_positive ex_ui (py ''bag'') 3
      \<lparr>shown = [], calls = ex_calls\<rparr> =
    (Inl e, \<lparr>shown = [], calls = ex_calls\<rparr>\<lparr>shown := shown \<lparr>shown = [], calls = ex_calls\<rparr> @
        shown_for_ensemble (StrLabel (py ''positive'')) (1 / 8) (7 / 8) [] @ [ComparisonHeader],
      calls := calls \<lparr>shown = [], calls = ex_calls\<rparr> @
        [Predict Ensemble, PredictProba Ensemble, Predict BNB]\<rparr>)"
    by (rule predict_and_show_bnb_raises) (simp_all add: ex_positive_simps ex_ui_simps assms)
  then show ?thesis
    by (simp add: ex_script ex_ui_simps ex_ensemble_shown)
qed

lemma ex_run_svm_raises:
  assumes "predict bnb (3::nat) = Inr [lb]" "predict svm (3::nat) = Inl e"
  shows "script (ex_artifacts bnb svm ex_positive) ex_ui =
    \<lparr>shown = [ResultHeader, Sentiment Positif, Confidence (Tinggi, Success) (175 / 2),
       Progress Positif (7 / 8), Progress Negatif (1 / 8), ComparisonHeader,
       PredictionFailed e],
     calls = ex_calls @ [Predict Ensemble, PredictProba Ensemble, Predict BNB, Predict SVM]\<rparr>"
proof -
  have "predict_and_show bnb svm ex_positive ex_ui (py ''bag'') 3
      \<lparr>shown = [], calls = ex_calls\<rparr> =
    (Inl e, \<lparr>shown = [], calls = ex_calls\<rparr>\<lparr>shown := shown \<lparr>shown = [], calls = ex_calls\<rparr> @
        shown_for_ensemble (StrLabel (py ''positive'')) (1 / 8) (7 / 8) [] @ [ComparisonHeader],
      calls := calls \<lparr>shown = [], calls = ex_calls\<rparr> @
        [Predict Ensemble, PredictProba Ensemble, Predict BNB, Predict SVM]\<rparr>)"
    by (rule predict_and_show_svm_raises) (simp_all add: ex_positive_simps ex_ui_simps assms)
  then show ?thesis
    by (simp add: ex_script ex_ui_simps ex_ensemble_shown)
qed

text \<open>
  Claim C8 as stated fails: the report does not identify the offending model. When the
  first base model raises, and when the second raises the same exception after the first
  has answered, the page is the same, the one message carrying the exception only; in
  the second run the label the first base model returned is not on the page.
\<close>

theorem failure_report_counterexample:
  "shown (script (ex_artifacts ex_raising ex_positive ex_positive) ex_ui) =
     [ResultHeader, Sentiment Positif, Confidence (Tinggi, Success) (175 / 2),
      Progress Positif (7 / 8), Progress Negatif (1 / 8), ComparisonHeader,
      PredictionFailed (Exception ''boom'')] \<and>
   shown (script (ex_artifacts ex_positive ex_raising ex_positive) ex_ui) =
   shown (script (ex_artifacts ex_raising ex_positive ex_positive) ex_ui) \<and>
   last (calls (script (ex_artifacts ex_raising ex_positive ex_positive) ex_ui)) = Predict BNB \<and>
   last (calls (script (ex_artifacts ex_positive ex_raising ex_positive) ex_ui)) = Predict SVM \<and>
   predict ex_positive (3::nat) = Inr [StrLabel (py ''positive'')] \<and>
   BaseSentiment BNB Positif
     \<notin> set (shown (script (ex_artifacts ex_positive ex_raising ex_positive) ex_ui))"
  by (simp add: ex_run_bnb_raises[of ex_raising "Exception ''boom''"]
      ex_run_svm_raises[of ex_positive "StrLabel (py ''positive'')" ex_raising "Exception ''boom''"]
      ex_raising_simps ex_positive_simps)

text \<open>
  Claim C8, as the code has it. Let the artifacts be loaded, the button pressed, the
  input not blank, and preprocessing and vectorization succeed. When \<open>predict\<close> or
  \<open>predict_proba\<close> of the ensemble raises, the page holds the one failure message with
  the exception and nothing else. When, the ensemble having answered and the comparison
  being requested, \<open>predict\<close> of a base model raises, the page holds what was shown for
  the ensemble, then the failure message with the exception, and no label of any base
  model. The message carries the exception and names no model. No call follows the one
  that raised.
\<close>

theorem classifier_failure_reported:
  assumes "model_bnb a = Some bnb" "model_svm a = Some svm" "model_ensemble a = Some ens"
    and "vectorizer a = Some vz" "tools a = Some tb" "tb \<noteq> []"
    and "predict_btn u" "strip (input_text u) \<noteq> []"
    and "vectorize_input vz tb u start = (Inr (p, vec), s0)"
  shows "(predict ens vec = Inl e \<longrightarrow>
      script a u = \<lparr>shown = [PredictionFailed e], calls = calls s0 @ [Predict Ensemble]\<rparr>) \<and>
    (predict ens vec = Inr (l # ls) \<longrightarrow> predict_proba ens vec = Inl e \<longrightarrow>
      script a u = \<lparr>shown = [PredictionFailed e],
        calls = calls s0 @ [Predict Ensemble, PredictProba Ensemble]\<rparr>) \<and>
    (predict ens vec = Inr (l # ls) \<longrightarrow>
     predict_proba ens vec = Inr ((pn # pp # rest) # rows) \<longrightarrow>
     0 \<le> pn \<and> pn \<le> 1 \<and> 0 \<le> pp \<and> pp \<le> 1 \<longrightarrow> show_comparison u \<longrightarrow>
       (predict bnb vec = Inl e \<longrightarrow>
          script a u = \<lparr>shown = shown_for_ensemble l pn pp rest @
              [ComparisonHeader, PredictionFailed e],
            calls = calls s0 @ [Predict Ensemble, PredictProba Ensemble, Predict BNB]\<rparr>) \<and>
       (predict bnb vec = Inr (lb # lbs) \<longrightarrow> predict svm vec = Inl e \<longrightarrow>
          script a u = \<lparr>shown = shown_for_ensemble l pn pp rest @
              [ComparisonHeader, PredictionFailed e],
            calls = calls s0 @
              [Predict Ensemble, PredictProba Ensemble, Predict BNB, Predict SVM]\<rparr>))"
proof -
  note run = script_vectorized[OF assms]
  have 1: "script a u = \<lparr>shown = [PredictionFailed e], calls = calls s0 @ [Predict Ensemble]\<rparr>"
    if "predict ens vec = Inl e"
    using run predict_and_show_predict_raises[OF that, of bnb svm u p s0] by simp
  have 2: "script a u = \<lparr>shown = [PredictionFailed e],
      calls = calls s0 @ [Predict Ensemble, PredictProba Ensemble]\<rparr>"
    if "predict ens vec = Inr (l # ls)" "predict_proba ens vec = Inl e"
    using run predict_and_show_proba_raises[OF that, of bnb svm u p s0] by simp
  have 3: "script a u = \<lparr>shown = shown_for_ensemble l pn pp rest @
        [ComparisonHeader, PredictionFailed e],
      calls = calls s0 @ [Predict Ensemble, PredictProba Ensemble, Predict BNB]\<rparr>"
    if "predict ens vec = Inr (l # ls)" "predict_proba ens vec = Inr ((pn # pp # rest) # rows)"
      "0 \<le> pn" "pn \<le> 1" "0 \<le> pp" "pp \<le> 1" "show_comparison u" "predict bnb vec = Inl e"
    using run predict_and_show_bnb_raises[OF that, of svm p s0] by simp
  have 4: "script a u = \<lparr>shown = shown_for_ensemble l pn pp rest @
        [ComparisonHeader, PredictionFailed e],
      calls = calls s0 @ [Predict Ensemble, PredictProba Ensemble, Predict BNB, Predict SVM]\<rparr>"
    if "predict ens vec = Inr (l # ls)" "predict_proba ens vec = Inr ((pn # pp # rest) # rows)"
      "0 \<le> pn" "pn \<le> 1" "0 \<le> pp" "pp \<le> 1" "show_comparison u"
      "predict bnb vec = Inr (lb # lbs)" "predict svm vec = Inl e"
    using run predict_and_show_svm_raises[OF that, of p s0] by simp
  show ?thesis using 1 2 3 4 by blast
qed

lemma ex_loaded:
  "model_bnb (ex_artifacts bnb svm ens) = Some bnb"
  "model_svm (ex_artifacts bnb svm ens) = Some svm"
  "model_ensemble (ex_artifacts bnb svm ens) = Some ens"
  "vectorizer (ex_artifacts bnb svm ens) = Some ex_vectorizer"
  "tools (ex_artifacts bnb svm ens) = Some ex_tools"
  "ex_tools \<noteq> []"
  by (simp_all add: ex_artifacts_def ex_tools_def)

lemma ex_not_blank: "strip (input_text ex_ui) \<noteq> []"
  by (simp add: ex_ui_def strip_def isspace_def py_def)

lemma ex_vectorized_start:
  "vectorize_input ex_vectorizer ex_tools ex_ui start =
     (Inr (py ''bag'', 3), \<lparr>shown = [], calls = ex_calls\<rparr>)"
  by (simp add: ex_vectorized[OF ex_ui_simps(1)] start_def ex_calls_def)

theorem classifier_failure_reported_witness:
  "predict_btn ex_ui \<and> strip (input_text ex_ui) \<noteq> [] \<and>
   vectorize_input ex_vectorizer ex_tools ex_ui start =
     (Inr (py ''bag'', 3), \<lparr>shown = [], calls = ex_calls\<rparr>) \<and>
   predict ex_raising (3::nat) = Inl (Exception ''boom'') \<and>
   script (ex_artifacts ex_positive ex_positive ex_raising) ex_ui =
     \<lparr>shown = [PredictionFailed (Exception ''boom'')],
      calls = [Remove (py ''bagus film''), Stem (py ''bagus''), Transform [py ''bag''],
        Predict Ensemble]\<rparr> \<and>
   script (ex_artifacts ex_positive ex_raising ex_positive) ex_ui =
     \<lparr>shown = [ResultHeader, Sentiment Positif, Confidence (Tinggi, Success) (175 / 2),
        Progress Positif (7 / 8), Progress Negatif (1 / 8), ComparisonHeader,
        PredictionFailed (Exception ''boom'')],
      calls = [Remove (py ''bagus film''), Stem (py ''bagus''), Transform [py ''bag''],
        Predict Ensemble, PredictProba Ensemble, Predict BNB, Predict SVM]\<rparr>"
proof -
  note ens_raises = classifier_failure_reported[OF ex_loaded ex_ui_simps(2) ex_not_blank
      ex_vectorized_start, where bnb = ex_positive and svm = ex_positive and ens = ex_raising
      and e = "Exception ''boom''"]
  note svm_raises = classifier_failure_reported[OF ex_loaded ex_ui_simps(2) ex_not_blank
      ex_vectorized_start, where bnb = ex_positive and svm = ex_raising and ens = ex_positive
      and e = "Exception ''boom''" and l = "StrLabel (py ''positive'')" and ls = "[]"
      and pn = "1 / 8" and pp = "7 / 8" and rest = "[]" and rows = "[]"
      and lb = "StrLabel (py ''positive'')" and lbs = "[]"]
  show ?thesis
    using ens_raises svm_raises
    by (simp add: ex_ui_simps ex_not_blank[unfolded ex_ui_simps(1)] ex_vectorized_start
        ex_raising_simps ex_positive_simps ex_ensemble_shown ex_calls_def)
qed



end
